theory Spec2Isabelle
  imports Main "HOL-Library.AList"
begin

section \<open>Snapshot model (main.go, lines 21-49)\<close>

text \<open>
  The exported issues as the Go structs declare them. Go strings are byte sequences, and so
  are HOL strings. The Go type \<open>int\<close> is taken at its 64-bit width; the only place where
  the width matters is the saturation of \<open>strconv.Atoi\<close>, written out below. A nil pointer
  (\<open>*Milestone\<close>, \<open>*string\<close>) is \<open>None\<close>.
\<close>

record Label =
  Label_Name :: string
  Label_Color :: string
  Label_Description :: string

record Milestone =
  Milestone_Title :: string
  Milestone_Description :: string
  Milestone_DueOn :: "string option"

record User =
  User_Login :: string

record Comment =
  Comment_Body :: string
  Comment_Author :: User

record Issue =
  Issue_Number :: int
  Issue_Title :: string
  Issue_Body :: string
  Issue_Labels :: "Label list"
  Issue_Comments :: "Comment list"
  Issue_Milestone :: "Milestone option"

section \<open>Library functions the program calls\<close>

subsection \<open>Decimal digits, \<open>fmt\<close> and \<open>strconv\<close>\<close>

definition isDigit :: "char \<Rightarrow> bool" where
  "isDigit c = (c \<in> set ''0123456789'')"

definition digitVal :: "char \<Rightarrow> int" where
  "digitVal c = of_char c - 48"

definition decimal :: "string \<Rightarrow> int" where
  "decimal ds = foldl (\<lambda>n ch. n * 10 + digitVal ch) 0 ds"

definition digitChar :: "nat \<Rightarrow> char" where
  "digitChar d = ''0123456789'' ! d"

fun digits_of :: "nat \<Rightarrow> string" where
  "digits_of n = (if n < 10 then [digitChar n] else digits_of (n div 10) @ [digitChar (n mod 10)])"

declare digits_of.simps [simp del]

text \<open>The verb \<open>%d\<close> of \<open>fmt.Sprintf\<close> on an \<open>int\<close>.\<close>

definition fmt_d :: "int \<Rightarrow> string" where
  "fmt_d i = (if i < 0 then CHR ''-'' # digits_of (nat (- i)) else digits_of (nat i))"

definition maxInt :: int where
  "maxInt = 2 ^ 63 - 1"

definition minInt :: int where
  "minInt = - (2 ^ 63)"

datatype NumError = ErrSyntax | ErrRange

text \<open>
  \<open>strconv.Atoi\<close> of the Go standard library, for a 64-bit \<open>int\<close>: an optional sign, then
  one or more decimal digits. Anything else is a syntax error with value 0. A value out of
  range is a range error, and the value returned with it is the nearest bound.
\<close>

definition Atoi :: "string \<Rightarrow> int \<times> NumError option" where
  "Atoi s =
     (let neg = (s \<noteq> [] \<and> hd s = CHR ''-'');
          ds = (if s \<noteq> [] \<and> (hd s = CHR ''-'' \<or> hd s = CHR ''+'') then tl s else s)
      in if ds = [] \<or> \<not> list_all isDigit ds then (0, Some ErrSyntax)
         else let un = decimal ds
              in if \<not> neg \<and> un > maxInt then (maxInt, Some ErrRange)
                 else if neg \<and> un > - minInt then (minInt, Some ErrRange)
                 else (if neg then - un else un, None))"

subsection \<open>\<open>strings\<close>\<close>

definition TrimPrefix :: "string \<Rightarrow> string \<Rightarrow> string" where
  "TrimPrefix s prefix =
     (if take (length prefix) s = prefix then drop (length prefix) s else s)"

subsection \<open>\<open>regexp\<close>, for the pattern of \<open>issueLinkRegex\<close>\<close>

text \<open>
  \<open>issueLinkRegex\<close> is \<open>#(\d+)\<close>: a hash sign and then as many ASCII digits as follow, at
  least one. \<open>ReplaceAllStringFunc\<close> scans the text from the left, hands each match to
  \<open>repl\<close>, copies everything else, and resumes after the match. \<open>FindAllString\<close> lists
  the same matches. Both work on bytes here: the bytes of \<open>#\<close> and of the digits occur in
  UTF-8 text only as these characters themselves.
\<close>

function issueLinkRegex_ReplaceAllStringFunc :: "string \<Rightarrow> (string \<Rightarrow> string) \<Rightarrow> string" where
  "issueLinkRegex_ReplaceAllStringFunc [] repl = []"
| "issueLinkRegex_ReplaceAllStringFunc (c # cs) repl =
     (if c = CHR ''#'' \<and> takeWhile isDigit cs \<noteq> []
      then repl (c # takeWhile isDigit cs)
             @ issueLinkRegex_ReplaceAllStringFunc (dropWhile isDigit cs) repl
      else c # issueLinkRegex_ReplaceAllStringFunc cs repl)"
  by pat_completeness auto
termination
  by (relation "measure (\<lambda>(s, repl). length s)")
     (auto simp: length_dropWhile_le less_Suc_eq_le)

function issueLinkRegex_FindAllString :: "string \<Rightarrow> string list" where
  "issueLinkRegex_FindAllString [] = []"
| "issueLinkRegex_FindAllString (c # cs) =
     (if c = CHR ''#'' \<and> takeWhile isDigit cs \<noteq> []
      then (c # takeWhile isDigit cs) # issueLinkRegex_FindAllString (dropWhile isDigit cs)
      else issueLinkRegex_FindAllString cs)"
  by pat_completeness auto
termination
  by (relation "measure length") (auto simp: length_dropWhile_le less_Suc_eq_le)

section \<open>The reference rewriter's text substitution (main.go, lines 259-267)\<close>

text \<open>
  The closure handed to \<open>ReplaceAllStringFunc\<close>. The error of \<open>Atoi\<close> is dropped, as in
  \<open>oldNum, _ := strconv.Atoi(oldNumStr)\<close>.
\<close>

definition replaceIssueLink :: "(int \<rightharpoonup> int) \<Rightarrow> string \<Rightarrow> string" where
  "replaceIssueLink oldToNewIssueNumbers match =
     (let oldNumStr = TrimPrefix match ''#'';
          oldNum = fst (Atoi oldNumStr)
      in case oldToNewIssueNumbers oldNum of
           Some newNum \<Rightarrow> ''#'' @ fmt_d newNum
         | None \<Rightarrow> match)"

definition updatedBody :: "(int \<rightharpoonup> int) \<Rightarrow> string \<Rightarrow> string" where
  "updatedBody oldToNewIssueNumbers body =
     issueLinkRegex_ReplaceAllStringFunc body (replaceIssueLink oldToNewIssueNumbers)"

section \<open>The remote collaborator\<close>

text \<open>
  The request values of the client library. Every field is a pointer there, so every field
  is optional here. \<open>'t\<close> is the type of parsed timestamps (\<open>time.Time\<close>).
\<close>

record github_Label =
  github_Label_Name :: "string option"
  github_Label_Color :: "string option"
  github_Label_Description :: "string option"

record 't github_Milestone =
  github_Milestone_Title :: "string option"
  github_Milestone_Description :: "string option"
  github_Milestone_DueOn :: "'t option"

record github_IssueRequest =
  github_IssueRequest_Title :: "string option"
  github_IssueRequest_Body :: "string option"
  github_IssueRequest_Labels :: "string list option"
  github_IssueRequest_Milestone :: "int option"

record github_IssueComment =
  github_IssueComment_Body :: "string option"

text \<open>
  The calls the program makes on \<open>client.Issues\<close>. Owner and repository are the same in
  every call of a run and are left out. \<open>ListMilestones\<close> is always called with state
  \<open>all\<close>. Each of the two list calls is made once, without page options, and the
  program reads the one answer: what the target holds beyond that answer it never sees.
\<close>

datatype 't call =
    Call_ListLabels
  | Call_CreateLabel github_Label
  | Call_ListMilestones
  | Call_CreateMilestone "'t github_Milestone"
  | Call_Create github_IssueRequest
  | Call_CreateComment int github_IssueComment
  | Call_Edit int github_IssueRequest

text \<open>
  The collaborator answers each call as it likes; its answer may depend on every call made
  before. An error is the text that \<open>%v\<close> prints for it. Of a returned label the program
  reads the name, of a returned milestone the title and the number, of a returned issue the
  number; the other results are read for their error only.
\<close>

record 't client =
  Issues_ListLabels :: "'t call list \<Rightarrow> string + string list"
  Issues_CreateLabel :: "'t call list \<Rightarrow> github_Label \<Rightarrow> string option"
  Issues_ListMilestones :: "'t call list \<Rightarrow> string + (string \<times> int) list"
  Issues_CreateMilestone :: "'t call list \<Rightarrow> 't github_Milestone \<Rightarrow> string + (string \<times> int)"
  Issues_Create :: "'t call list \<Rightarrow> github_IssueRequest \<Rightarrow> string + int"
  Issues_CreateComment :: "'t call list \<Rightarrow> int \<Rightarrow> github_IssueComment \<Rightarrow> string option"
  Issues_Edit :: "'t call list \<Rightarrow> int \<Rightarrow> github_IssueRequest \<Rightarrow> string option"

text \<open>What a run leaves behind: the calls made and the lines logged, each in order.\<close>

record 't world =
  calls :: "'t call list"
  logs :: "string list"

definition did :: "'t world \<Rightarrow> 't call \<Rightarrow> 't world" where
  "did w c = w\<lparr>calls := calls w @ [c]\<rparr>"

definition logf :: "'t world \<Rightarrow> string \<Rightarrow> 't world" where
  "logf w line = w\<lparr>logs := logs w @ [line]\<rparr>"

abbreviation nl :: char where
  "nl \<equiv> CHR 0x0A"

abbreviation dq :: char where
  "dq \<equiv> CHR 0x22"

abbreviation sq :: char where
  "sq \<equiv> CHR 0x27"

section \<open>Phase 1: \<open>findLablesAndMilestones\<close> (main.go, lines 105-120)\<close>

text \<open>
  The two Go maps are association lists with one pair per key: \<open>m[k] = v\<close> is
  \<open>AList.update k v m\<close>, \<open>len(m)\<close> is the length. The order of the pairs means nothing;
  a \<open>range\<close> over such a map may visit them in any order.
\<close>

definition findLablesAndMilestones_body ::
  "(string \<times> Label) list \<times> (string \<times> Milestone) list \<Rightarrow> Issue
     \<Rightarrow> (string \<times> Label) list \<times> (string \<times> Milestone) list" where
  "findLablesAndMilestones_body acc issue =
     (let uniqueLabels =
            foldl (\<lambda>m label. AList.update (Label_Name label) label m) (fst acc) (Issue_Labels issue);
          uniqueMilestones =
            (case Issue_Milestone issue of
               None \<Rightarrow> snd acc
             | Some milestone \<Rightarrow> AList.update (Milestone_Title milestone) milestone (snd acc))
      in (uniqueLabels, uniqueMilestones))"

definition findLablesAndMilestones ::
  "'t world \<Rightarrow> Issue list \<Rightarrow> 't world \<times> (string \<times> Label) list \<times> (string \<times> Milestone) list" where
  "findLablesAndMilestones w issues =
     (let (uniqueLabels, uniqueMilestones) = foldl findLablesAndMilestones_body ([], []) issues
      in (logf w (''Found '' @ fmt_d (int (length uniqueLabels)) @ '' unique labels and ''
                    @ fmt_d (int (length uniqueMilestones)) @ '' unique milestones.'' @ [nl]),
          uniqueLabels, uniqueMilestones))"

section \<open>Phase 2: \<open>createLabels\<close> and \<open>createMilestones\<close> (main.go, lines 122-189)\<close>

definition createLabels_body ::
  "'t client \<Rightarrow> (string \<Rightarrow> bool) \<Rightarrow> 't world \<Rightarrow> string \<times> Label \<Rightarrow> 't world" where
  "createLabels_body client existingLabelNames w entry =
     (let name = fst entry; label = snd entry
      in if \<not> existingLabelNames name then
           (let w1 = logf w (''Creating label: ['' @ name @ '']'');
                req = \<lparr>github_Label_Name = Some (Label_Name label),
                       github_Label_Color = Some (Label_Color label),
                       github_Label_Description = Some (Label_Description label)\<rparr>;
                err = Issues_CreateLabel client (calls w1) req;
                w2 = did w1 (Call_CreateLabel req)
            in case err of
                 Some e \<Rightarrow>
                   logf w2 (''Warning: failed to create label ['' @ name @ '']: '' @ e @ [nl])
               | None \<Rightarrow> w2)
         else w)"

text \<open>
  \<open>labels\<close> lists the pairs of the map in the order in which the \<open>range\<close> statement visits
  them. The result is the error that the Go function returns, if any.
\<close>

definition createLabels ::
  "'t client \<Rightarrow> 't world \<Rightarrow> (string \<times> Label) list \<Rightarrow> 't world \<times> string option" where
  "createLabels client w labels =
     (let r = Issues_ListLabels client (calls w);
          w1 = did w Call_ListLabels
      in case r of
           Inl err \<Rightarrow> (w1, Some (''failed to fetch existing labels: '' @ err))
         | Inr existingLabels \<Rightarrow>
             (let existingLabelNames =
                    foldl (\<lambda>m name. m(name := True)) (\<lambda>name. False) existingLabels
              in (foldl (createLabels_body client existingLabelNames) w1 labels, None)))"

text \<open>
  \<open>time_Parse\<close> stands for \<open>time.Parse(time.RFC3339, _)\<close>: the parsed time, or the error's
  text.
\<close>

definition createMilestones_body ::
  "(string \<Rightarrow> string + 't) \<Rightarrow> 't client \<Rightarrow> 't world \<times> (string \<rightharpoonup> int) \<Rightarrow> string \<times> Milestone
     \<Rightarrow> 't world \<times> (string \<rightharpoonup> int)" where
  "createMilestones_body time_Parse client st entry =
     (let w = fst st; milestoneTitleToNumber = snd st;
          title = fst entry; milestone = snd entry
      in case milestoneTitleToNumber title of
           Some existing \<Rightarrow> st
         | None \<Rightarrow>
             (let w1 = logf w (''Creating milestone: '' @ title);
                  newMilestoneReq =
                    \<lparr>github_Milestone_Title = Some (Milestone_Title milestone),
                     github_Milestone_Description = Some (Milestone_Description milestone),
                     github_Milestone_DueOn = None\<rparr>;
                  (w2, newMilestoneReq) =
                    (case Milestone_DueOn milestone of
                       None \<Rightarrow> (w1, newMilestoneReq)
                     | Some dueOn \<Rightarrow>
                         (case time_Parse dueOn of
                            Inl err \<Rightarrow>
                              (logf w1 (''Warning: could not parse due date for milestone ''
                                 @ [sq] @ title @ [sq] @ '': '' @ err
                                 @ ''. Creating without due date.''),
                               newMilestoneReq)
                          | Inr parsedTime \<Rightarrow>
                              (w1, newMilestoneReq\<lparr>github_Milestone_DueOn := Some parsedTime\<rparr>)));
                  r = Issues_CreateMilestone client (calls w2) newMilestoneReq;
                  w3 = did w2 (Call_CreateMilestone newMilestoneReq)
              in case r of
                   Inl err \<Rightarrow>
                     (logf w3 (''Warning: failed to create milestone '' @ [sq] @ title @ [sq]
                        @ '': '' @ err @ [nl]),
                      milestoneTitleToNumber)
                 | Inr createdMilestone \<Rightarrow>
                     (w3, milestoneTitleToNumber(fst createdMilestone \<mapsto> snd createdMilestone))))"

definition createMilestones ::
  "(string \<Rightarrow> string + 't) \<Rightarrow> 't client \<Rightarrow> 't world \<Rightarrow> (string \<times> Milestone) list
     \<Rightarrow> 't world \<times> (string + (string \<rightharpoonup> int))" where
  "createMilestones time_Parse client w milestones =
     (let r = Issues_ListMilestones client (calls w);
          w1 = did w Call_ListMilestones
      in case r of
           Inl err \<Rightarrow> (w1, Inl (''failed to fetch existing milestones: '' @ err))
         | Inr existingMilestones \<Rightarrow>
             (let milestoneTitleToNumber =
                    foldl (\<lambda>m em. m(fst em \<mapsto> snd em)) Map.empty existingMilestones;
                  st = foldl (createMilestones_body time_Parse client)
                         (w1, milestoneTitleToNumber) milestones
              in (fst st, Inr (snd st))))"

section \<open>Phase 3: \<open>createIssueAndComment\<close> (main.go, lines 191-247)\<close>

definition newIssueRequest :: "(string \<rightharpoonup> int) \<Rightarrow> Issue \<Rightarrow> github_IssueRequest" where
  "newIssueRequest milestoneTitleToNum issue =
     (let labelNames = foldl (\<lambda>names label. names @ [Label_Name label]) [] (Issue_Labels issue);
          req = \<lparr>github_IssueRequest_Title = Some (Issue_Title issue),
                 github_IssueRequest_Body = Some (Issue_Body issue),
                 github_IssueRequest_Labels = Some labelNames,
                 github_IssueRequest_Milestone = None\<rparr>
      in case Issue_Milestone issue of
           None \<Rightarrow> req
         | Some milestone \<Rightarrow>
             (case milestoneTitleToNum (Milestone_Title milestone) of
                Some newMilestoneNum \<Rightarrow>
                  req\<lparr>github_IssueRequest_Milestone := Some newMilestoneNum\<rparr>
              | None \<Rightarrow> req))"

text \<open>The \<open>strings.Builder\<close> of lines 223-231, as the text written to it so far.\<close>

definition combinedComments :: "Comment list \<Rightarrow> string" where
  "combinedComments comments =
     foldl (\<lambda>b comment.
              b @ (''**Comment from @'' @ User_Login (Comment_Author comment) @ '':**'' @ [nl, nl])
                @ Comment_Body comment
                @ ([nl, nl] @ ''---'' @ [nl, nl]))
       (''### Comments from original issue:'' @ [nl, nl] @ ''---'' @ [nl, nl])
       comments"

definition createIssueAndComment_body ::
  "'t client \<Rightarrow> (string \<rightharpoonup> int) \<Rightarrow> 't world \<times> (int \<rightharpoonup> int) \<Rightarrow> Issue
     \<Rightarrow> 't world \<times> (int \<rightharpoonup> int)" where
  "createIssueAndComment_body client milestoneTitleToNum st issue =
     (let w = fst st; oldToNewIssueNumbers = snd st;
          req = newIssueRequest milestoneTitleToNum issue;
          w1 = logf w (''Creating issue for: '' @ [dq] @ Issue_Title issue @ [dq] @ ''...'');
          r = Issues_Create client (calls w1) req;
          w2 = did w1 (Call_Create req)
      in case r of
           Inl err \<Rightarrow>
             (logf w2 (''Failed to create issue '' @ [dq] @ Issue_Title issue @ [dq] @ '': '' @ err),
              oldToNewIssueNumbers)
         | Inr newlyCreatedNumber \<Rightarrow>
             (let oldToNewIssueNumbers' =
                    oldToNewIssueNumbers(Issue_Number issue \<mapsto> newlyCreatedNumber)
              in if length (Issue_Comments issue) > 0 then
                   (let w3 = logf w2 (''Consolidating ''
                                @ fmt_d (int (length (Issue_Comments issue)))
                                @ '' comments for new issue #'' @ fmt_d newlyCreatedNumber);
                        combinedBody = combinedComments (Issue_Comments issue)
                    in if length combinedBody > 0 then
                         (let issueComment = \<lparr>github_IssueComment_Body = Some combinedBody\<rparr>;
                              err = Issues_CreateComment client (calls w3)
                                      newlyCreatedNumber issueComment;
                              w4 = did w3 (Call_CreateComment newlyCreatedNumber issueComment)
                          in case err of
                               Some e \<Rightarrow>
                                 (logf w4 (''Failed to create consolidated comment for issue #''
                                     @ fmt_d newlyCreatedNumber @ '': '' @ e @ [nl]),
                                  oldToNewIssueNumbers')
                             | None \<Rightarrow>
                                 (logf w4 (''Successfully posted consolidated comments.'' @ [nl]),
                                  oldToNewIssueNumbers'))
                       else (w3, oldToNewIssueNumbers'))
                 else (w2, oldToNewIssueNumbers')))"

definition createIssueAndComment ::
  "'t client \<Rightarrow> 't world \<Rightarrow> Issue list \<Rightarrow> (string \<rightharpoonup> int) \<Rightarrow> 't world \<times> (int \<rightharpoonup> int)" where
  "createIssueAndComment client w issues milestoneTitleToNum =
     foldl (createIssueAndComment_body client milestoneTitleToNum) (w, Map.empty) issues"

section \<open>Phase 4: \<open>updateIssueLinks\<close> (main.go, lines 249-280)\<close>

definition updateIssueLinks_body ::
  "'t client \<Rightarrow> (int \<rightharpoonup> int) \<Rightarrow> 't world \<Rightarrow> Issue \<Rightarrow> 't world" where
  "updateIssueLinks_body client oldToNewIssueNumbers w sourceIssue =
     (case oldToNewIssueNumbers (Issue_Number sourceIssue) of
        None \<Rightarrow>
          logf w (''Skipping body update for old issue #'' @ fmt_d (Issue_Number sourceIssue)
                    @ '' as it was not created.'')
      | Some newlyCreatedNumber \<Rightarrow>
          (let newBody = updatedBody oldToNewIssueNumbers (Issue_Body sourceIssue)
           in if newBody \<noteq> Issue_Body sourceIssue then
                (let w1 = logf w (''Updating body for new issue #'' @ fmt_d newlyCreatedNumber
                             @ '' (from old #'' @ fmt_d (Issue_Number sourceIssue) @ '')...'');
                     updateReq = \<lparr>github_IssueRequest_Title = None,
                                  github_IssueRequest_Body = Some newBody,
                                  github_IssueRequest_Labels = None,
                                  github_IssueRequest_Milestone = None\<rparr>;
                     err = Issues_Edit client (calls w1) newlyCreatedNumber updateReq;
                     w2 = did w1 (Call_Edit newlyCreatedNumber updateReq)
                 in case err of
                      Some e \<Rightarrow>
                        logf w2 (''Failed to update body for new issue #''
                                   @ fmt_d newlyCreatedNumber @ '': '' @ e @ [nl])
                    | None \<Rightarrow> logf w2 (''Success!'' @ [nl]))
              else w))"

definition updateIssueLinks ::
  "'t client \<Rightarrow> 't world \<Rightarrow> Issue list \<Rightarrow> (int \<rightharpoonup> int) \<Rightarrow> 't world" where
  "updateIssueLinks client w issues oldToNewIssueNumbers =
     foldl (updateIssueLinks_body client oldToNewIssueNumbers) w issues"

section \<open>The four phases in \<open>main\<close> (main.go, lines 81-102)\<close>

text \<open>
  \<open>main\<close> from the point where the snapshot has been read. \<open>range_labels\<close> and
  \<open>range_milestones\<close> give the order in which the Go runtime visits the pairs of the two
  collected maps. \<open>log.Fatalf\<close> logs its line and ends the run: the result is then the
  world so far and \<open>Some\<close> of the fatal message; a run that reaches the end of \<open>main\<close>
  gives \<open>None\<close>.
\<close>

definition main_phases ::
  "((string \<times> Label) list \<Rightarrow> (string \<times> Label) list)
     \<Rightarrow> ((string \<times> Milestone) list \<Rightarrow> (string \<times> Milestone) list)
     \<Rightarrow> (string \<Rightarrow> string + 't) \<Rightarrow> 't client \<Rightarrow> 't world \<Rightarrow> Issue list
     \<Rightarrow> 't world \<times> string option" where
  "main_phases range_labels range_milestones time_Parse client w sourceIssues =
     (let w = logf w (''Successfully parsed '' @ fmt_d (int (length sourceIssues))
                        @ '' issues from the file.'' @ [nl]);
          w = logf w ''Phase 1: Collecting unique labels and milestones'';
          (w, labels, milestones) = findLablesAndMilestones w sourceIssues;
          w = logf w ''Phase 2: Creating labels and milestones in target repository'';
          (w, err) = createLabels client w (range_labels labels)
      in case err of
           Some e \<Rightarrow>
             (logf w (''failed to create labels: '' @ e), Some (''failed to create labels: '' @ e))
         | None \<Rightarrow>
             (let (w, r) = createMilestones time_Parse client w (range_milestones milestones)
              in case r of
                   Inl e \<Rightarrow>
                     (logf w (''failed to create milestones: '' @ e),
                      Some (''failed to create milestones: '' @ e))
                 | Inr milestoneTitleToNumber \<Rightarrow>
                     (let w = logf w ''Phase 3: Creating issues and comments'';
                          (w, oldToNewIssueNumbers) =
                            createIssueAndComment client w sourceIssues milestoneTitleToNumber;
                          w = logf w ''Phase 4: Updating issue bodies with new links'';
                          w = updateIssueLinks client w sourceIssues oldToNewIssueNumbers
                      in (logf w ([nl] @ '' All issues created and linked successfully! ---''),
                          None))))"

section \<open>Notions used in the statements\<close>

text \<open>
  A text has an issue link when a hash sign is directly followed by a digit somewhere in it.
  A body is cut into segments when it is written as a stretch \<open>t0\<close> without issue link,
  followed by references: each a hash sign, a non-empty run of digits, and a stretch without
  issue link that does not begin with a digit (so that the run of digits is the whole match).
\<close>

fun hasIssueLink :: "string \<Rightarrow> bool" where
  "hasIssueLink (a # b # cs) = ((a = CHR ''#'' \<and> isDigit b) \<or> hasIssueLink (b # cs))"
| "hasIssueLink cs = False"

definition issueLinkSegments :: "string \<Rightarrow> (string \<times> string) list \<Rightarrow> bool" where
  "issueLinkSegments t0 segs =
     (\<not> hasIssueLink t0 \<and>
      list_all (\<lambda>seg. fst seg \<noteq> [] \<and> list_all isDigit (fst seg) \<and> \<not> hasIssueLink (snd seg)
                  \<and> (snd seg = [] \<or> \<not> isDigit (hd (snd seg)))) segs)"

text \<open>The request that \<open>createLabels\<close> builds for a collected label.\<close>

abbreviation labelRequest :: "Label \<Rightarrow> github_Label" where
  "labelRequest label \<equiv>
     \<lparr>github_Label_Name = Some (Label_Name label),
      github_Label_Color = Some (Label_Color label),
      github_Label_Description = Some (Label_Description label)\<rparr>"

text \<open>
  The request that \<open>createMilestones\<close> builds for a collected milestone, and the map it
  starts from.
\<close>

abbreviation milestoneRequest :: "(string \<Rightarrow> string + 't) \<Rightarrow> Milestone \<Rightarrow> 't github_Milestone" where
  "milestoneRequest time_Parse milestone \<equiv>
     \<lparr>github_Milestone_Title = Some (Milestone_Title milestone),
      github_Milestone_Description = Some (Milestone_Description milestone),
      github_Milestone_DueOn =
        (case Milestone_DueOn milestone of
           None \<Rightarrow> None
         | Some dueOn \<Rightarrow>
             (case time_Parse dueOn of Inl err \<Rightarrow> None | Inr parsedTime \<Rightarrow> Some parsedTime))\<rparr>"

abbreviation seededMilestones :: "(string \<times> int) list \<Rightarrow> (string \<rightharpoonup> int)" where
  "seededMilestones existingMilestones \<equiv>
     foldl (\<lambda>m em. m(fst em \<mapsto> snd em)) Map.empty existingMilestones"

text \<open>
  A collaborator reports the requested title when every milestone it returns from a
  creation has the title that the request named.
\<close>

definition reportsRequestedTitle :: "'t client \<Rightarrow> bool" where
  "reportsRequestedTitle client =
     (\<forall>h req createdMilestone.
        Issues_CreateMilestone client h req = Inr createdMilestone
          \<longrightarrow> github_Milestone_Title req = Some (fst createdMilestone))"

text \<open>The creation requests among a sequence of calls, in order.\<close>

fun createRequests :: "'t call list \<Rightarrow> github_IssueRequest list" where
  "createRequests [] = []"
| "createRequests (Call_Create req # cs) = req # createRequests cs"
| "createRequests (c # cs) = createRequests cs"

subsection \<open>A sample snapshot and a sample collaborator\<close>

text \<open>
  Concrete values on which the theorems below are instantiated. The sample collaborator
  already has a label \<open>bug\<close> and a milestone \<open>v1\<close>; it rejects a label without colour, and
  a milestone or an issue without title; it numbers what it creates by the calls it has
  seen. The sample time parser accepts texts of the length of \<open>2006-01-02T15:04:05Z\<close>
  that end in \<open>Z\<close>.
\<close>

definition example_client :: "string client" where
  "example_client =
     \<lparr>Issues_ListLabels = (\<lambda>h. Inr [''bug'']),
      Issues_CreateLabel =
        (\<lambda>h req. if github_Label_Color req = Some [] then Some ''422 Validation Failed''
                  else None),
      Issues_ListMilestones = (\<lambda>h. Inr [(''v1'', 1)]),
      Issues_CreateMilestone =
        (\<lambda>h req. case github_Milestone_Title req of
                     None \<Rightarrow> Inl ''422 Validation Failed''
                   | Some title \<Rightarrow>
                       if title = [] then Inl ''422 Validation Failed''
                       else Inr (title, 2 + int (length h))),
      Issues_Create =
        (\<lambda>h req. if github_IssueRequest_Title req = Some [] then Inl ''422 Validation Failed''
                  else Inr (10 * (1 + int (length (createRequests h))))),
      Issues_CreateComment = (\<lambda>h number comment. None),
      Issues_Edit = (\<lambda>h number req. None)\<rparr>"

definition unreachable_client :: "string client" where
  "unreachable_client =
     example_client\<lparr>Issues_ListLabels := (\<lambda>h. Inl ''dial tcp: connection refused'')\<rparr>"

definition example_time_Parse :: "string \<Rightarrow> string + string" where
  "example_time_Parse s =
     (if length s = 20 \<and> last s = CHR ''Z'' then Inr s
      else Inl ''cannot parse as RFC3339'')"

definition example_world :: "string world" where
  "example_world = \<lparr>calls = [], logs = []\<rparr>"

definition label_bug :: Label where
  "label_bug = \<lparr>Label_Name = ''bug'', Label_Color = ''d73a4a'', Label_Description = ''Broken''\<rparr>"

definition label_ui :: Label where
  "label_ui = \<lparr>Label_Name = ''ui'', Label_Color = ''0e8a16'', Label_Description = ''Front end''\<rparr>"

definition label_ui_later :: Label where
  "label_ui_later = \<lparr>Label_Name = ''ui'', Label_Color = [], Label_Description = ''UI''\<rparr>"

definition label_docs :: Label where
  "label_docs = \<lparr>Label_Name = ''docs'', Label_Color = ''0075ca'', Label_Description = ''Manual''\<rparr>"

definition milestone_v1 :: Milestone where
  "milestone_v1 = \<lparr>Milestone_Title = ''v1'', Milestone_Description = ''First release'',
                    Milestone_DueOn = Some ''2025-01-31T00:00:00Z''\<rparr>"

definition milestone_v2 :: Milestone where
  "milestone_v2 = \<lparr>Milestone_Title = ''v2'', Milestone_Description = ''Second release'',
                    Milestone_DueOn = Some ''next spring''\<rparr>"

definition trimSpace :: "string \<Rightarrow> string" where
  "trimSpace s =
     rev (dropWhile (\<lambda>c. c = CHR '' '') (rev (dropWhile (\<lambda>c. c = CHR '' '') s)))"

definition trimming_client :: "string client" where
  "trimming_client =
     example_client\<lparr>Issues_CreateMilestone :=
       (\<lambda>h req. case github_Milestone_Title req of
                    None \<Rightarrow> Inl ''422 Validation Failed''
                  | Some title \<Rightarrow> Inr (trimSpace title, 2 + int (length h)))\<rparr>"

definition milestone_untitled :: Milestone where
  "milestone_untitled = \<lparr>Milestone_Title = [], Milestone_Description = ''Backlog'',
                          Milestone_DueOn = None\<rparr>"

definition milestone_v2_padded :: Milestone where
  "milestone_v2_padded = \<lparr>Milestone_Title = ''v2 '', Milestone_Description = ''Second release'',
                           Milestone_DueOn = None\<rparr>"

definition comment_by :: "string \<Rightarrow> string \<Rightarrow> Comment" where
  "comment_by login body =
     \<lparr>Comment_Body = body, Comment_Author = \<lparr>User_Login = login\<rparr>\<rparr>"

definition issue3 :: Issue where
  "issue3 = \<lparr>Issue_Number = 3, Issue_Title = ''Login fails'', Issue_Body = ''Since 0.9'',
              Issue_Labels = [label_bug, label_ui],
              Issue_Comments = [comment_by ''alice'' ''Same here'', comment_by ''bob'' ''Fixed'',
                                comment_by ''alice'' ''Thanks''],
              Issue_Milestone = Some milestone_v1\<rparr>"

definition issue4 :: Issue where
  "issue4 = \<lparr>Issue_Number = 4, Issue_Title = [], Issue_Body = ''No title'',
              Issue_Labels = [label_ui_later],
              Issue_Comments = [comment_by ''bob'' ''What is this?''],
              Issue_Milestone = Some milestone_v2\<rparr>"

definition issue5 :: Issue where
  "issue5 = \<lparr>Issue_Number = 5, Issue_Title = ''Follow-up'', Issue_Body = ''Follows #3 and #4'',
              Issue_Labels = [], Issue_Comments = [], Issue_Milestone = None\<rparr>"

definition issue9_refused :: Issue where
  "issue9_refused = \<lparr>Issue_Number = 9, Issue_Title = [], Issue_Body = ''First export'',
                      Issue_Labels = [], Issue_Comments = [], Issue_Milestone = None\<rparr>"

definition issue9_created :: Issue where
  "issue9_created = \<lparr>Issue_Number = 9, Issue_Title = ''Second export'', Issue_Body = ''Again'',
                      Issue_Labels = [], Issue_Comments = [], Issue_Milestone = None\<rparr>"

section \<open>Properties\<close>

subsection \<open>The scan of \<open>issueLinkRegex\<close>\<close>

lemma takeWhile_stop: "\<not> P x \<Longrightarrow> takeWhile P (xs @ x # ys) = takeWhile P xs"
  by (induction xs) auto

lemma dropWhile_stop: "\<not> P x \<Longrightarrow> dropWhile P (xs @ x # ys) = dropWhile P xs @ x # ys"
  by (induction xs) auto

lemma not_isDigit_hash: "\<not> isDigit (CHR ''#'')"
  by (simp add: isDigit_def)

lemma digit_run:
  assumes "list_all isDigit ds" and "post = [] \<or> \<not> isDigit (hd post)"
  shows "takeWhile isDigit (ds @ post) = ds" and "dropWhile isDigit (ds @ post) = post"
  using assms by (induction ds) (cases post; simp)+

lemma Replace_append_hash:
  "issueLinkRegex_ReplaceAllStringFunc (pre @ CHR ''#'' # r) repl =
     issueLinkRegex_ReplaceAllStringFunc pre repl
       @ issueLinkRegex_ReplaceAllStringFunc (CHR ''#'' # r) repl"
proof (induction pre repl rule: issueLinkRegex_ReplaceAllStringFunc.induct)
  case (1 repl)
  show ?case by simp
next
  case (2 c cs repl)
  have tw: "takeWhile isDigit (cs @ CHR ''#'' # r) = takeWhile isDigit cs"
    by (simp add: takeWhile_stop not_isDigit_hash)
  have dw: "dropWhile isDigit (cs @ CHR ''#'' # r) = dropWhile isDigit cs @ CHR ''#'' # r"
    by (simp add: dropWhile_stop not_isDigit_hash)
  show ?case
  proof (cases "c = CHR ''#'' \<and> takeWhile isDigit cs \<noteq> []")
    case True
    with 2(1) tw dw show ?thesis by simp
  next
    case False
    with 2(2) tw show ?thesis by auto
  qed
qed

lemma Replace_match_head:
  assumes "ds \<noteq> []" and "list_all isDigit ds" and "post = [] \<or> \<not> isDigit (hd post)"
  shows "issueLinkRegex_ReplaceAllStringFunc (CHR ''#'' # ds @ post) repl =
           repl (CHR ''#'' # ds) @ issueLinkRegex_ReplaceAllStringFunc post repl"
  using assms digit_run [OF assms(2,3)] by simp

lemma Replace_plain:
  "\<not> hasIssueLink t \<Longrightarrow> issueLinkRegex_ReplaceAllStringFunc t repl = t"
proof (induction t repl rule: issueLinkRegex_ReplaceAllStringFunc.induct)
  case (1 repl)
  show ?case by simp
next
  case (2 c cs repl)
  then show ?case by (cases cs) auto
qed

lemma replaceIssueLink_match:
  "replaceIssueLink m (CHR ''#'' # ds) =
     (case m (fst (Atoi ds)) of Some n \<Rightarrow> CHR ''#'' # fmt_d n | None \<Rightarrow> CHR ''#'' # ds)"
  by (simp add: replaceIssueLink_def TrimPrefix_def split: option.splits)

lemma segs_tail_start:
  "list_all (\<lambda>seg. P seg) segs \<Longrightarrow>
   concat (map (\<lambda>seg. CHR ''#'' # fst seg @ snd seg) segs) = [] \<or>
   \<not> isDigit (hd (concat (map (\<lambda>seg. CHR ''#'' # fst seg @ snd seg) segs)))"
  by (cases segs) (auto simp: not_isDigit_hash)

lemma FindAll_empty_iff: "issueLinkRegex_FindAllString t = [] \<longleftrightarrow> \<not> hasIssueLink t"
proof (induction t rule: issueLinkRegex_FindAllString.induct)
  case 1
  show ?case by simp
next
  case (2 c cs)
  then show ?case by (cases cs) auto
qed

lemma FindAll_shape:
  "match \<in> set (issueLinkRegex_FindAllString t) \<Longrightarrow>
   \<exists>ds. match = CHR ''#'' # ds \<and> ds \<noteq> [] \<and> list_all isDigit ds"
proof (induction t rule: issueLinkRegex_FindAllString.induct)
  case 1
  then show ?case by simp
next
  case (2 c cs)
  show ?case
  proof (cases "c = CHR ''#'' \<and> takeWhile isDigit cs \<noteq> []")
    case True
    with 2 show ?thesis
      by (auto simp: list_all_iff dest: set_takeWhileD)
  next
    case False
    with 2 show ?thesis by auto
  qed
qed

lemma Replace_cong:
  "(\<And>match. match \<in> set (issueLinkRegex_FindAllString t) \<Longrightarrow> f match = g match) \<Longrightarrow>
   issueLinkRegex_ReplaceAllStringFunc t f = issueLinkRegex_ReplaceAllStringFunc t g"
proof (induction t f rule: issueLinkRegex_ReplaceAllStringFunc.induct)
  case (1 repl)
  show ?case by simp
next
  case (2 c cs repl)
  show ?case
  proof (cases "c = CHR ''#'' \<and> takeWhile isDigit cs \<noteq> []")
    case True
    with 2 show ?thesis by simp
  next
    case False
    with 2 show ?thesis by auto
  qed
qed

lemma every_body_has_segments:
  "\<exists>t0 segs. issueLinkSegments t0 segs \<and>
      body = t0 @ concat (map (\<lambda>seg. CHR ''#'' # fst seg @ snd seg) segs)"
proof (induction body rule: issueLinkRegex_FindAllString.induct)
  case 1
  have "issueLinkSegments [] []" by (simp add: issueLinkSegments_def)
  then show ?case by fastforce
next
  case (2 c cs)
  show ?case
  proof (cases "c = CHR ''#'' \<and> takeWhile isDigit cs \<noteq> []")
    case True
    with 2(1) obtain t0 segs where seg: "issueLinkSegments t0 segs"
      and eq: "dropWhile isDigit cs = t0 @ concat (map (\<lambda>seg. CHR ''#'' # fst seg @ snd seg) segs)"
      by blast
    have nd: "dropWhile isDigit cs = [] \<or> \<not> isDigit (hd (dropWhile isDigit cs))"
      by (metis hd_dropWhile)
    have t0: "t0 = [] \<or> \<not> isDigit (hd t0)"
      using nd eq by (cases t0) auto
    have da: "list_all isDigit (takeWhile isDigit cs)"
      by (auto simp: list_all_iff dest: set_takeWhileD)
    have "issueLinkSegments [] ((takeWhile isDigit cs, t0) # segs)"
      using seg True t0 da by (simp add: issueLinkSegments_def)
    moreover have "c # cs = [] @ concat (map (\<lambda>seg. CHR ''#'' # fst seg @ snd seg)
                                  ((takeWhile isDigit cs, t0) # segs))"
      using True eq [symmetric] by simp
    ultimately show ?thesis by blast
  next
    case False
    with 2(2) obtain t0 segs where seg: "issueLinkSegments t0 segs"
      and eq: "cs = t0 @ concat (map (\<lambda>seg. CHR ''#'' # fst seg @ snd seg) segs)"
      by blast
    have "\<not> hasIssueLink (c # t0)"
    proof (cases t0)
      case Nil
      then show ?thesis by simp
    next
      case (Cons b bs)
      with eq have "cs = b # (bs @ concat (map (\<lambda>seg. CHR ''#'' # fst seg @ snd seg) segs))"
        by simp
      with False have "\<not> (c = CHR ''#'' \<and> isDigit b)" by auto
      with seg Cons show ?thesis by (simp add: issueLinkSegments_def)
    qed
    with seg have "issueLinkSegments (c # t0) segs" by (simp add: issueLinkSegments_def)
    moreover have "c # cs = (c # t0) @ concat (map (\<lambda>seg. CHR ''#'' # fst seg @ snd seg) segs)"
      using eq by simp
    ultimately show ?thesis by blast
  qed
qed

subsection \<open>The rewritten body\<close>

lemma updatedBody_plain: "\<not> hasIssueLink t \<Longrightarrow> updatedBody m t = t"
  by (simp add: updatedBody_def Replace_plain)

lemma updatedBody_at_reference:
  assumes "ds \<noteq> []" and "list_all isDigit ds" and "t = [] \<or> \<not> isDigit (hd t)"
  shows "updatedBody m (t0 @ CHR ''#'' # ds @ t) =
           updatedBody m t0 @ replaceIssueLink m (CHR ''#'' # ds) @ updatedBody m t"
proof -
  have "issueLinkRegex_ReplaceAllStringFunc (t0 @ CHR ''#'' # ds @ t) (replaceIssueLink m) =
          issueLinkRegex_ReplaceAllStringFunc t0 (replaceIssueLink m)
            @ issueLinkRegex_ReplaceAllStringFunc (CHR ''#'' # ds @ t) (replaceIssueLink m)"
    by (rule Replace_append_hash)
  also note Replace_match_head [OF assms]
  finally show ?thesis by (simp only: updatedBody_def)
qed


text \<open>
  What the scan does with any body, whatever its digits: the number looked up for a
  reference is the value that \<open>strconv.Atoi\<close> returns for its digits.
\<close>

lemma updatedBody_segments:
  "issueLinkSegments t0 segs \<Longrightarrow>
   updatedBody oldToNewIssueNumbers
       (t0 @ concat (map (\<lambda>seg. CHR ''#'' # fst seg @ snd seg) segs)) =
     t0 @ concat (map (\<lambda>seg.
            (case oldToNewIssueNumbers (fst (Atoi (fst seg))) of
               Some newNum \<Rightarrow> CHR ''#'' # fmt_d newNum
             | None \<Rightarrow> CHR ''#'' # fst seg) @ snd seg) segs)"
proof (induction segs arbitrary: t0)
  case Nil
  then show ?case by (simp add: issueLinkSegments_def updatedBody_plain)
next
  case (Cons seg segs)
  let ?rest = "concat (map (\<lambda>seg. CHR ''#'' # fst seg @ snd seg) segs)"
  from Cons.prems have t0: "\<not> hasIssueLink t0"
    and ds: "fst seg \<noteq> []" "list_all isDigit (fst seg)"
    and t: "snd seg = [] \<or> \<not> isDigit (hd (snd seg))"
    and nxt: "issueLinkSegments (snd seg) segs"
    by (auto simp: issueLinkSegments_def)
  have start: "snd seg @ ?rest = [] \<or> \<not> isDigit (hd (snd seg @ ?rest))"
  proof (cases "snd seg")
    case Nil
    from nxt have "list_all (\<lambda>seg. True) segs" by (simp add: list_all_iff)
    from segs_tail_start [OF this] Nil show ?thesis by simp
  next
    case (Cons a as)
    with t show ?thesis by simp
  qed
  have "updatedBody oldToNewIssueNumbers (t0 @ CHR ''#'' # fst seg @ snd seg @ ?rest) =
        updatedBody oldToNewIssueNumbers t0
          @ replaceIssueLink oldToNewIssueNumbers (CHR ''#'' # fst seg)
          @ updatedBody oldToNewIssueNumbers (snd seg @ ?rest)"
    by (rule updatedBody_at_reference [OF ds start])
  also have "updatedBody oldToNewIssueNumbers t0 = t0"
    by (rule updatedBody_plain [OF t0])
  also have "updatedBody oldToNewIssueNumbers (snd seg @ ?rest) =
      snd seg @ concat (map (\<lambda>seg.
            (case oldToNewIssueNumbers (fst (Atoi (fst seg))) of
               Some newNum \<Rightarrow> CHR ''#'' # fmt_d newNum
             | None \<Rightarrow> CHR ''#'' # fst seg) @ snd seg) segs)"
    by (rule Cons.IH [OF nxt])
  finally show ?case by (simp add: replaceIssueLink_match)
qed

lemma Atoi_digits:
  assumes "ds \<noteq> []" and "list_all isDigit ds" and "decimal ds \<le> maxInt"
  shows "Atoi ds = (decimal ds, None)"
proof -
  from assms(1,2) have "isDigit (hd ds)" by (cases ds) auto
  then have "hd ds \<noteq> CHR ''-''" and "hd ds \<noteq> CHR ''+''"
    by (auto simp: isDigit_def)
  with assms show ?thesis by (simp add: Atoi_def)
qed

text \<open>
  C1, amended. Take any body, cut into segments: a stretch without issue link, then
  references, each a hash sign with its run of digits and the stretch that follows it (by
  \<open>every_body_has_segments\<close> every body can be cut so), and suppose that the digits of
  every reference denote a number within the range of \<open>int\<close>. For every mapping, the
  rewritten body is the same sequence in which a reference whose number has an entry in the
  mapping has become the hash sign and the new number in decimal, a reference whose number
  has no entry is as it was, and every stretch in between is as it was.
\<close>

theorem rewrite_replaces_exactly_the_mapped_references:
  assumes cut: "issueLinkSegments t0 segs"
    and range: "list_all (\<lambda>seg. decimal (fst seg) \<le> maxInt) segs"
  shows "updatedBody oldToNewIssueNumbers
           (t0 @ concat (map (\<lambda>seg. CHR ''#'' # fst seg @ snd seg) segs)) =
         t0 @ concat (map (\<lambda>seg.
                (case oldToNewIssueNumbers (decimal (fst seg)) of
                   Some newNum \<Rightarrow> CHR ''#'' # fmt_d newNum
                 | None \<Rightarrow> CHR ''#'' # fst seg) @ snd seg) segs)"
proof -
  have parsed: "fst (Atoi (fst seg)) = decimal (fst seg)" if "seg \<in> set segs" for seg
  proof -
    from cut that have "fst seg \<noteq> []" and "list_all isDigit (fst seg)"
      by (auto simp: issueLinkSegments_def list_all_iff)
    moreover from range that have "decimal (fst seg) \<le> maxInt"
      by (simp add: list_all_iff)
    ultimately show ?thesis by (simp add: Atoi_digits)
  qed
  have "map (\<lambda>seg.
            (case oldToNewIssueNumbers (fst (Atoi (fst seg))) of
               Some newNum \<Rightarrow> CHR ''#'' # fmt_d newNum
             | None \<Rightarrow> CHR ''#'' # fst seg) @ snd seg) segs =
        map (\<lambda>seg.
            (case oldToNewIssueNumbers (decimal (fst seg)) of
               Some newNum \<Rightarrow> CHR ''#'' # fmt_d newNum
             | None \<Rightarrow> CHR ''#'' # fst seg) @ snd seg) segs"
    by (rule map_cong) (simp_all add: parsed)
  with updatedBody_segments [OF cut, of oldToNewIssueNumbers] show ?thesis by simp
qed

theorem rewrite_replaces_exactly_the_mapped_references_witness:
  "issueLinkSegments ''As in '' [(''3'', '', see PR ''), (''77'', ''; 3 and 5 stay, ''), (''5'', ''.'')] \<and>
   list_all (\<lambda>seg. decimal (fst seg) \<le> maxInt)
     [(''3'', '', see PR ''), (''77'', ''; 3 and 5 stay, ''), (''5'', ''.'')] \<and>
   updatedBody [3 \<mapsto> 30, 5 \<mapsto> 50] ''As in #3, see PR #77; 3 and 5 stay, #5.'' =
     ''As in #30, see PR #77; 3 and 5 stay, #50.''"
  using rewrite_replaces_exactly_the_mapped_references
    [of "''As in ''" "[(''3'', '', see PR ''), (''77'', ''; 3 and 5 stay, ''), (''5'', ''.'')]" "[3 \<mapsto> 30, 5 \<mapsto> 50]"]
  by (simp add: issueLinkSegments_def isDigit_def decimal_def digitVal_def fmt_d_def
        digits_of.simps digitChar_def maxInt_def)

text \<open>
  C1 as stated, for every body, does not hold. The error of \<open>strconv.Atoi\<close> is dropped and
  the value that comes with a range error is the largest \<open>int\<close>. So a reference whose
  twenty digits denote a number without entry in the mapping is replaced when the largest
  \<open>int\<close> has an entry.
\<close>

theorem overflowing_reference_is_looked_up_at_the_bound:
  "issueLinkSegments ''big '' [(''99999999999999999999'', [])] \<and>
   decimal ''99999999999999999999'' = 99999999999999999999 \<and>
   [9223372036854775807 \<mapsto> (7::int)] (99999999999999999999::int) = None \<and>
   Atoi ''99999999999999999999'' = (9223372036854775807, Some ErrRange) \<and>
   updatedBody [9223372036854775807 \<mapsto> 7] ''big #99999999999999999999'' = ''big #7''"
  by (simp add: issueLinkSegments_def updatedBody_def replaceIssueLink_def TrimPrefix_def Atoi_def
        isDigit_def decimal_def digitVal_def fmt_d_def digits_of.simps digitChar_def maxInt_def
        minInt_def)

lemma Atoi_of_match:
  assumes "match \<in> set (issueLinkRegex_FindAllString body)"
    and "decimal (TrimPrefix match ''#'') \<le> maxInt"
  shows "Atoi (TrimPrefix match ''#'') = (decimal (TrimPrefix match ''#''), None)"
proof -
  from FindAll_shape [OF assms(1)] obtain ds
    where "match = CHR ''#'' # ds" "ds \<noteq> []" "list_all isDigit ds" by blast
  with assms(2) show ?thesis by (simp add: TrimPrefix_def Atoi_digits)
qed

text \<open>
  C10. The rewriter drops the error of \<open>strconv.Atoi\<close>. If the digits of every match of
  the pattern in a body denote a number within the range of \<open>int\<close>, then every parse in
  that body returns this number and no error, and the rewritten body is the one obtained
  by looking up the number the digits denote. The rewrite itself is a total function of
  body and mapping: the scan was shown to terminate where it was defined, and the closure
  has a result for every match.
\<close>

theorem parse_error_never_arises_within_int_range:
  assumes "\<forall>match \<in> set (issueLinkRegex_FindAllString body).
             decimal (TrimPrefix match ''#'') \<le> maxInt"
  shows "(\<forall>match \<in> set (issueLinkRegex_FindAllString body).
            Atoi (TrimPrefix match ''#'') = (decimal (TrimPrefix match ''#''), None)) \<and>
         updatedBody oldToNewIssueNumbers body =
           issueLinkRegex_ReplaceAllStringFunc body
             (\<lambda>match. case oldToNewIssueNumbers (decimal (TrimPrefix match ''#'')) of
                         Some newNum \<Rightarrow> ''#'' @ fmt_d newNum
                       | None \<Rightarrow> match)"
proof
  show "\<forall>match \<in> set (issueLinkRegex_FindAllString body).
          Atoi (TrimPrefix match ''#'') = (decimal (TrimPrefix match ''#''), None)"
    using assms Atoi_of_match by blast
  then show "updatedBody oldToNewIssueNumbers body =
           issueLinkRegex_ReplaceAllStringFunc body
             (\<lambda>match. case oldToNewIssueNumbers (decimal (TrimPrefix match ''#'')) of
                         Some newNum \<Rightarrow> ''#'' @ fmt_d newNum
                       | None \<Rightarrow> match)"
    unfolding updatedBody_def
    by (intro Replace_cong) (simp add: replaceIssueLink_def)
qed

theorem parse_error_never_arises_within_int_range_witness:
  "list_all (\<lambda>match. decimal (TrimPrefix match ''#'') \<le> maxInt)
     (issueLinkRegex_FindAllString ''fixes #12, not #007'') \<and>
   list_all (\<lambda>match. Atoi (TrimPrefix match ''#'') = (decimal (TrimPrefix match ''#''), None))
     (issueLinkRegex_FindAllString ''fixes #12, not #007'') \<and>
   updatedBody [12 \<mapsto> 4] ''fixes #12, not #007'' = ''fixes #4, not #007''"
  using parse_error_never_arises_within_int_range [of "''fixes #12, not #007''" "[12 \<mapsto> 4]"]
  by (simp add: TrimPrefix_def isDigit_def decimal_def digitVal_def fmt_d_def
        digits_of.simps digitChar_def maxInt_def)

subsection \<open>Calls and log lines\<close>

lemma calls_logf [simp]: "calls (logf w line) = calls w"
  by (simp add: logf_def)

lemma calls_did [simp]: "calls (did w c) = calls w @ [c]"
  by (simp add: did_def)

lemma logs_logf [simp]: "logs (logf w line) = logs w @ [line]"
  by (simp add: logf_def)

lemma logs_did [simp]: "logs (did w c) = logs w"
  by (simp add: did_def)


text \<open>The equations that evaluate the model on the sample values.\<close>

lemmas sample_defs = example_client_def example_world_def example_time_Parse_def label_docs_def
  unreachable_client_def trimming_client_def trimSpace_def milestone_untitled_def
  milestone_v2_padded_def
  label_bug_def label_ui_def label_ui_later_def milestone_v1_def milestone_v2_def
  comment_by_def issue3_def issue4_def issue5_def issue9_refused_def issue9_created_def

lemmas text_defs = updatedBody_def replaceIssueLink_def TrimPrefix_def Atoi_def isDigit_def
  decimal_def digitVal_def fmt_d_def digits_of.simps digitChar_def maxInt_def minInt_def

lemmas phase_defs = createIssueAndComment_def createIssueAndComment_body_def
  newIssueRequest_def combinedComments_def updateIssueLinks_def updateIssueLinks_body_def
  did_def logf_def

subsection \<open>Phase 1: the collected sets\<close>

lemma insert_all_distinct:
  "distinct (map fst m) \<Longrightarrow>
   distinct (map fst (foldl (\<lambda>m x. AList.update (key x) x m) m xs))"
  by (induction xs arbitrary: m) (simp_all add: distinct_update)

lemma insert_all_keys:
  "fst ` set (foldl (\<lambda>m x. AList.update (key x) x m) m xs) = fst ` set m \<union> key ` set xs"
  by (induction xs arbitrary: m) (auto simp: dom_update)

lemma insert_all_other:
  "k \<notin> key ` set xs \<Longrightarrow>
   map_of (foldl (\<lambda>m x. AList.update (key x) x m) m xs) k = map_of m k"
  by (induction xs arbitrary: m) (simp_all add: update_conv')

lemma insert_all_last:
  assumes "key x \<notin> key ` set post"
  shows "map_of (foldl (\<lambda>m x. AList.update (key x) x m) m (pre @ x # post)) (key x) = Some x"
  using assms by (simp add: insert_all_other update_conv')

lemma insert_all_keyed:
  "\<forall>e \<in> set m. key (snd e) = fst e \<Longrightarrow>
   \<forall>e \<in> set (foldl (\<lambda>m x. AList.update (key x) x m) m xs). key (snd e) = fst e"
proof (induction xs arbitrary: m)
  case Nil
  then show ?case by simp
next
  case (Cons x xs)
  have "\<forall>e \<in> set (AList.update (key x) x m). key (snd e) = fst e"
    using Cons.prems by (induction m) auto
  then show ?case using Cons.IH by simp
qed

lemma collected_labels:
  "fst (foldl findLablesAndMilestones_body acc issues) =
     foldl (\<lambda>m label. AList.update (Label_Name label) label m) (fst acc)
       (concat (map Issue_Labels issues))"
  by (induction issues arbitrary: acc) (simp_all add: findLablesAndMilestones_body_def)

lemma collected_milestones:
  "snd (foldl findLablesAndMilestones_body acc issues) =
     foldl (\<lambda>m milestone. AList.update (Milestone_Title milestone) milestone m) (snd acc)
       (concat (map (\<lambda>issue. case Issue_Milestone issue of None \<Rightarrow> [] | Some milestone \<Rightarrow> [milestone])
                  issues))"
  by (induction issues arbitrary: acc)
     (simp_all add: findLablesAndMilestones_body_def split: option.splits)

lemma findLablesAndMilestones_result:
  "fst (snd (findLablesAndMilestones w issues)) = fst (foldl findLablesAndMilestones_body ([], []) issues)"
  "snd (snd (findLablesAndMilestones w issues)) = snd (foldl findLablesAndMilestones_body ([], []) issues)"
  by (simp_all add: findLablesAndMilestones_def split: prod.splits)

text \<open>
  C5. Let \<open>allLabels\<close> be the labels of all source issues in the order of iteration, and
  \<open>allMilestones\<close> the milestones of the issues that have one. The collector returns a
  label set with one entry per name: its keys are pairwise distinct and are exactly the
  names that occur in \<open>allLabels\<close>, and the entry under a name is the last label of that
  name in \<open>allLabels\<close>. The same holds of the milestone set and the titles in
  \<open>allMilestones\<close>. For an empty list of issues both sets are empty.
\<close>

theorem collector_keeps_last_entry_per_key:
  assumes "labels = fst (snd (findLablesAndMilestones w issues))"
    and "milestones = snd (snd (findLablesAndMilestones w issues))"
    and "allLabels = concat (map Issue_Labels issues)"
    and "allMilestones =
           concat (map (\<lambda>issue. case Issue_Milestone issue of
                                   None \<Rightarrow> [] | Some milestone \<Rightarrow> [milestone]) issues)"
  shows "distinct (map fst labels) \<and>
         set (map fst labels) = Label_Name ` set allLabels \<and>
         (\<forall>pre label post. allLabels = pre @ label # post
              \<and> Label_Name label \<notin> Label_Name ` set post
            \<longrightarrow> map_of labels (Label_Name label) = Some label) \<and>
         distinct (map fst milestones) \<and>
         set (map fst milestones) = Milestone_Title ` set allMilestones \<and>
         (\<forall>pre milestone post. allMilestones = pre @ milestone # post
              \<and> Milestone_Title milestone \<notin> Milestone_Title ` set post
            \<longrightarrow> map_of milestones (Milestone_Title milestone) = Some milestone) \<and>
         snd (findLablesAndMilestones w []) = ([], [])"
proof -
  have l: "labels = foldl (\<lambda>m label. AList.update (Label_Name label) label m) [] allLabels"
    using assms(1,3) by (simp add: findLablesAndMilestones_result collected_labels)
  have m: "milestones =
      foldl (\<lambda>m milestone. AList.update (Milestone_Title milestone) milestone m) [] allMilestones"
    using assms(2,4) by (simp add: findLablesAndMilestones_result collected_milestones)
  have "distinct (map fst labels)"
    unfolding l by (rule insert_all_distinct) simp
  moreover have "set (map fst labels) = Label_Name ` set allLabels"
    unfolding l by (simp add: insert_all_keys)
  moreover have "map_of labels (Label_Name label) = Some label"
    if "allLabels = pre @ label # post" "Label_Name label \<notin> Label_Name ` set post"
    for pre label post
    unfolding l that(1) using that(2) by (rule insert_all_last)
  moreover have "distinct (map fst milestones)"
    unfolding m by (rule insert_all_distinct) simp
  moreover have "set (map fst milestones) = Milestone_Title ` set allMilestones"
    unfolding m by (simp add: insert_all_keys)
  moreover have "map_of milestones (Milestone_Title milestone) = Some milestone"
    if "allMilestones = pre @ milestone # post"
       "Milestone_Title milestone \<notin> Milestone_Title ` set post"
    for pre milestone post
    unfolding m that(1) using that(2) by (rule insert_all_last)
  moreover have "snd (findLablesAndMilestones w []) = ([], [])"
    by (simp add: findLablesAndMilestones_def)
  ultimately show ?thesis by blast
qed


theorem collector_keeps_last_entry_per_key_witness:
  "fst (snd (findLablesAndMilestones example_world [issue3, issue4, issue5])) =
     [(''bug'', label_bug), (''ui'', label_ui_later)] \<and>
   snd (snd (findLablesAndMilestones example_world [issue3, issue4, issue5])) =
     [(''v1'', milestone_v1), (''v2'', milestone_v2)] \<and>
   concat (map Issue_Labels [issue3, issue4, issue5]) = [label_bug, label_ui] @ label_ui_later # [] \<and>
   Label_Name label_ui_later \<notin> Label_Name ` set [] \<and>
   map_of (fst (snd (findLablesAndMilestones example_world [issue3, issue4, issue5])))
     (Label_Name label_ui_later) = Some label_ui_later"
  using collector_keeps_last_entry_per_key
    [of "fst (snd (findLablesAndMilestones example_world [issue3, issue4, issue5]))"
        example_world "[issue3, issue4, issue5]"
        "snd (snd (findLablesAndMilestones example_world [issue3, issue4, issue5]))"
        "concat (map Issue_Labels [issue3, issue4, issue5])"
        "concat (map (\<lambda>issue. case Issue_Milestone issue of
                                   None \<Rightarrow> [] | Some milestone \<Rightarrow> [milestone])
                   [issue3, issue4, issue5])"]
  by (simp add: findLablesAndMilestones_def findLablesAndMilestones_body_def
        issue3_def issue4_def issue5_def label_bug_def label_ui_def label_ui_later_def
        milestone_v1_def milestone_v2_def)

text \<open>
  The collected sets are keyed by name and by title, each key once. The phases that follow
  rely on it: they test the key and send the name or title of the entry.
\<close>

lemma collected_sets_are_keyed:
  "list_all (\<lambda>entry. Label_Name (snd entry) = fst entry)
     (fst (snd (findLablesAndMilestones w issues))) \<and>
   list_all (\<lambda>entry. Milestone_Title (snd entry) = fst entry)
     (snd (snd (findLablesAndMilestones w issues))) \<and>
   distinct (map fst (fst (snd (findLablesAndMilestones w issues)))) \<and>
   distinct (map fst (snd (snd (findLablesAndMilestones w issues))))"
proof -
  have "\<forall>e \<in> set (foldl (\<lambda>m x. AList.update (Label_Name x) x m) []
                     (concat (map Issue_Labels issues))). Label_Name (snd e) = fst e"
    by (rule insert_all_keyed) simp
  moreover have "\<forall>e \<in> set (foldl (\<lambda>m x. AList.update (Milestone_Title x) x m) []
      (concat (map (\<lambda>issue. case Issue_Milestone issue of None \<Rightarrow> [] | Some milestone \<Rightarrow> [milestone])
                 issues))). Milestone_Title (snd e) = fst e"
    by (rule insert_all_keyed) simp
  moreover have "distinct (map fst (foldl (\<lambda>m x. AList.update (Label_Name x) x m) []
                     (concat (map Issue_Labels issues))))"
    by (rule insert_all_distinct) simp
  moreover have "distinct (map fst (foldl (\<lambda>m x. AList.update (Milestone_Title x) x m) []
      (concat (map (\<lambda>issue. case Issue_Milestone issue of None \<Rightarrow> [] | Some milestone \<Rightarrow> [milestone])
                 issues))))"
    by (rule insert_all_distinct) simp
  ultimately show ?thesis
    by (simp add: findLablesAndMilestones_result collected_labels collected_milestones
          list_all_iff)
qed

subsection \<open>Phase 2: labels\<close>

lemma existingLabelNames_eq:
  "foldl (\<lambda>m name. m(name := True)) m0 names name = (m0 name \<or> name \<in> set names)"
  by (induction names arbitrary: m0) auto

lemma createLabels_body_calls:
  "calls (createLabels_body client existing w entry) =
     calls w @ (if existing (fst entry) then [] else [Call_CreateLabel (labelRequest (snd entry))])"
  by (simp add: createLabels_body_def Let_def split: option.splits)

lemma createLabels_loop_calls:
  "calls (foldl (createLabels_body client existing) w labels) =
     calls w @ map (\<lambda>entry. Call_CreateLabel (labelRequest (snd entry)))
                 (filter (\<lambda>entry. \<not> existing (fst entry)) labels)"
  by (induction labels arbitrary: w) (simp_all add: createLabels_body_calls)

lemma createLabels_body_logs:
  "set (logs w) \<subseteq> set (logs (createLabels_body client existing w entry))"
  by (auto simp: createLabels_body_def Let_def split: option.splits)

lemma createLabels_loop_logs:
  "set (logs w) \<subseteq> set (logs (foldl (createLabels_body client existing) w labels))"
proof (induction labels arbitrary: w)
  case Nil
  show ?case by simp
next
  case (Cons entry labels)
  have "set (logs w) \<subseteq> set (logs (createLabels_body client existing w entry))"
    by (rule createLabels_body_logs)
  also have "\<dots> \<subseteq> set (logs (foldl (createLabels_body client existing)
                      (createLabels_body client existing w entry) labels))"
    by (rule Cons.IH)
  finally show ?case by simp
qed

lemma createLabels_body_warns:
  assumes "\<not> existing name"
    and "Issues_CreateLabel client (calls w) (labelRequest label) = Some e"
  shows "''Warning: failed to create label ['' @ name @ '']: '' @ e @ [nl]
           \<in> set (logs (createLabels_body client existing w (name, label)))"
  using assms by (simp add: createLabels_body_def Let_def)

lemma findLablesAndMilestones_calls:
  "calls (fst (findLablesAndMilestones w issues)) = calls w"
  by (simp add: findLablesAndMilestones_def split: prod.splits)

lemma createLabels_fetch_failed:
  "Issues_ListLabels client (calls w) = Inl err \<Longrightarrow>
   createLabels client w labels =
     (did w Call_ListLabels, Some (''failed to fetch existing labels: '' @ err))"
  by (simp add: createLabels_def)

lemma main_phases_fetch_failed:
  assumes "Issues_ListLabels client (calls w) = Inl err"
  shows "snd (main_phases range_labels range_milestones time_Parse client w sourceIssues) =
           Some (''failed to create labels: failed to fetch existing labels: '' @ err)"
    and "calls (fst (main_phases range_labels range_milestones time_Parse client w sourceIssues)) =
           calls w @ [Call_ListLabels]"
  using assms
  by (simp_all add: main_phases_def createLabels_def Let_def case_prod_beta
        findLablesAndMilestones_calls)

text \<open>
  C9. If the fetch of the existing labels fails, label provisioning returns an error, and
  \<open>main\<close> ends the run with it, having made no other call. If the fetch succeeds, label
  provisioning returns no error, whatever the creation requests answer: it requests the
  creation of every collected label whose name is not among the existing ones, one after
  the other in the order of iteration, and the log holds a warning for each request that
  was refused.
\<close>

theorem label_creation_failure_is_not_fatal:
  "(case Issues_ListLabels client (calls w) of
      Inl err \<Rightarrow>
        createLabels client w labels =
          (did w Call_ListLabels, Some (''failed to fetch existing labels: '' @ err)) \<and>
        snd (main_phases range_labels range_milestones time_Parse client w sourceIssues) =
          Some (''failed to create labels: failed to fetch existing labels: '' @ err) \<and>
        calls (fst (main_phases range_labels range_milestones time_Parse client w sourceIssues)) =
          calls w @ [Call_ListLabels]
    | Inr existingLabels \<Rightarrow>
        snd (createLabels client w labels) = None \<and>
        calls (fst (createLabels client w labels)) =
          calls w @ Call_ListLabels #
            map (\<lambda>entry. Call_CreateLabel (labelRequest (snd entry)))
              (filter (\<lambda>entry. fst entry \<notin> set existingLabels) labels) \<and>
        (\<forall>pre name label post e.
           labels = pre @ (name, label) # post \<and> name \<notin> set existingLabels \<and>
           Issues_CreateLabel client
             (calls w @ Call_ListLabels #
                map (\<lambda>entry. Call_CreateLabel (labelRequest (snd entry)))
                  (filter (\<lambda>entry. fst entry \<notin> set existingLabels) pre))
             (labelRequest label) = Some e
           \<longrightarrow> ''Warning: failed to create label ['' @ name @ '']: '' @ e @ [nl]
                 \<in> set (logs (fst (createLabels client w labels)))))"
proof (cases "Issues_ListLabels client (calls w)")
  case (Inl err)
  with createLabels_fetch_failed [OF Inl] main_phases_fetch_failed [OF Inl]
  show ?thesis by simp
next
  case (Inr existingLabels)
  let ?existing = "foldl (\<lambda>m name. m(name := True)) (\<lambda>name. False) existingLabels"
  let ?body = "createLabels_body client ?existing"
  have ex: "?existing name = (name \<in> set existingLabels)" for name
    by (simp add: existingLabelNames_eq)
  have run: "createLabels client w labels = (foldl ?body (did w Call_ListLabels) labels, None)"
    using Inr by (simp add: createLabels_def)
  have ok: "snd (createLabels client w labels) = None"
    by (simp add: run)
  have cs: "calls (foldl ?body (did w Call_ListLabels) xs) =
      calls w @ Call_ListLabels #
        map (\<lambda>entry. Call_CreateLabel (labelRequest (snd entry)))
          (filter (\<lambda>entry. fst entry \<notin> set existingLabels) xs)" for xs
    by (simp add: createLabels_loop_calls ex)
  have warn: "''Warning: failed to create label ['' @ name @ '']: '' @ e @ [nl]
                 \<in> set (logs (fst (createLabels client w labels)))"
    if split: "labels = pre @ (name, label) # post"
      and new: "name \<notin> set existingLabels"
      and refused: "Issues_CreateLabel client
             (calls w @ Call_ListLabels #
                map (\<lambda>entry. Call_CreateLabel (labelRequest (snd entry)))
                  (filter (\<lambda>entry. fst entry \<notin> set existingLabels) pre))
             (labelRequest label) = Some e"
    for pre name label post e
  proof -
    let ?w = "foldl ?body (did w Call_ListLabels) pre"
    have "''Warning: failed to create label ['' @ name @ '']: '' @ e @ [nl]
            \<in> set (logs (?body ?w (name, label)))"
      using new refused by (intro createLabels_body_warns) (simp_all add: ex cs)
    moreover have "set (logs (?body ?w (name, label)))
        \<subseteq> set (logs (foldl ?body (?body ?w (name, label)) post))"
      by (rule createLabels_loop_logs)
    moreover have "fst (createLabels client w labels) =
        foldl ?body (?body ?w (name, label)) post"
      using run unfolding split by simp
    ultimately show ?thesis by (simp only: subsetD)
  qed
  from ok cs [of labels] warn show ?thesis
    using Inr by (simp add: run)
qed

theorem label_creation_failure_is_not_fatal_witness:
  "Issues_ListLabels example_client (calls example_world) = Inr [''bug''] \<and>
   snd (createLabels example_client example_world
          [(''bug'', label_bug), (''ui'', label_ui_later), (''docs'', label_docs)]) = None \<and>
   calls (fst (createLabels example_client example_world
          [(''bug'', label_bug), (''ui'', label_ui_later), (''docs'', label_docs)])) =
     [Call_ListLabels, Call_CreateLabel (labelRequest label_ui_later),
      Call_CreateLabel (labelRequest label_docs)] \<and>
   ''ui'' \<notin> set [''bug''] \<and>
   Issues_CreateLabel example_client [Call_ListLabels] (labelRequest label_ui_later)
     = Some ''422 Validation Failed'' \<and>
   ''Warning: failed to create label [ui]: 422 Validation Failed'' @ [nl]
     \<in> set (logs (fst (createLabels example_client example_world
          [(''bug'', label_bug), (''ui'', label_ui_later), (''docs'', label_docs)]))) \<and>
   Issues_ListLabels unreachable_client (calls example_world)
     = Inl ''dial tcp: connection refused'' \<and>
   main_phases (\<lambda>labels. labels) (\<lambda>milestones. milestones) example_time_Parse
       unreachable_client example_world [issue3, issue4, issue5] =
     (\<lparr>calls = [Call_ListLabels],
       logs = [''Successfully parsed 3 issues from the file.'' @ [nl],
               ''Phase 1: Collecting unique labels and milestones'',
               ''Found 2 unique labels and 2 unique milestones.'' @ [nl],
               ''Phase 2: Creating labels and milestones in target repository'',
               ''failed to create labels: failed to fetch existing labels: dial tcp: connection refused'']\<rparr>,
      Some ''failed to create labels: failed to fetch existing labels: dial tcp: connection refused'')"
  using label_creation_failure_is_not_fatal
    [of example_client example_world
        "[(''bug'', label_bug), (''ui'', label_ui_later), (''docs'', label_docs)]"]
    label_creation_failure_is_not_fatal
    [of unreachable_client example_world "[]" "\<lambda>labels. labels" "\<lambda>milestones. milestones"
        example_time_Parse "[issue3, issue4, issue5]"]
  by (simp add: sample_defs createLabels_def createLabels_body_def did_def logf_def
        main_phases_def findLablesAndMilestones_def findLablesAndMilestones_body_def
        fmt_d_def digits_of.simps digitChar_def Let_def)

subsection \<open>Phase 2: milestones\<close>

lemma createMilestones_body_calls:
  "calls (fst (createMilestones_body time_Parse client st entry)) =
     calls (fst st) @
       (case snd st (fst entry) of
          Some existing \<Rightarrow> []
        | None \<Rightarrow> [Call_CreateMilestone (milestoneRequest time_Parse (snd entry))])"
  by (simp add: createMilestones_body_def Let_def split: option.splits sum.splits)

lemma createMilestones_body_map:
  "snd (createMilestones_body time_Parse client st entry) =
     (case snd st (fst entry) of
        Some existing \<Rightarrow> snd st
      | None \<Rightarrow>
          (case Issues_CreateMilestone client (calls (fst st))
                  (milestoneRequest time_Parse (snd entry)) of
             Inl err \<Rightarrow> snd st
           | Inr createdMilestone \<Rightarrow> (snd st)(fst createdMilestone \<mapsto> snd createdMilestone)))"
  by (auto simp: createMilestones_body_def Let_def split: option.splits sum.splits)

lemma createMilestones_body_logs:
  "set (logs (fst st)) \<subseteq> set (logs (fst (createMilestones_body time_Parse client st entry)))"
  by (auto simp: createMilestones_body_def Let_def split: option.splits sum.splits)

lemma createMilestones_loop_logs:
  "set (logs (fst st))
     \<subseteq> set (logs (fst (foldl (createMilestones_body time_Parse client) st milestones)))"
proof (induction milestones arbitrary: st)
  case Nil
  show ?case by simp
next
  case (Cons entry milestones)
  have "set (logs (fst st))
      \<subseteq> set (logs (fst (createMilestones_body time_Parse client st entry)))"
    by (rule createMilestones_body_logs)
  also have "\<dots> \<subseteq> set (logs (fst (foldl (createMilestones_body time_Parse client)
                      (createMilestones_body time_Parse client st entry) milestones)))"
    by (rule Cons.IH)
  finally show ?case by simp
qed

lemma createMilestones_loop_calls_mono:
  "set (calls (fst st))
     \<subseteq> set (calls (fst (foldl (createMilestones_body time_Parse client) st milestones)))"
proof (induction milestones arbitrary: st)
  case Nil
  show ?case by simp
next
  case (Cons entry milestones)
  have "set (calls (fst st))
      \<subseteq> set (calls (fst (createMilestones_body time_Parse client st entry)))"
    by (simp add: createMilestones_body_calls)
  also have "\<dots> \<subseteq> set (calls (fst (foldl (createMilestones_body time_Parse client)
                      (createMilestones_body time_Parse client st entry) milestones)))"
    by (rule Cons.IH)
  finally show ?case by simp
qed

lemma createMilestones_fetched:
  "Issues_ListMilestones client (calls w) = Inr existingMilestones \<Longrightarrow>
   createMilestones time_Parse client w milestones =
     (fst (foldl (createMilestones_body time_Parse client)
             (did w Call_ListMilestones, seededMilestones existingMilestones) milestones),
      Inr (snd (foldl (createMilestones_body time_Parse client)
             (did w Call_ListMilestones, seededMilestones existingMilestones) milestones)))"
  by (simp add: createMilestones_def Let_def)


text \<open>
  C7. Suppose the existing milestones were fetched, and a collected milestone whose title
  is not in the map when its turn comes carries a due date that \<open>time.Parse\<close> rejects.
  Then the one call of its turn is the creation request with its title and description and
  without due date, that call is among the calls of the phase, the log of the phase holds
  the warning about the date, and the phase does not end in an error: it returns the map
  reached after this milestone and those that follow it.
\<close>

theorem unparsable_due_date_is_dropped:
  assumes fetched: "Issues_ListMilestones client (calls w) = Inr existingMilestones"
    and turn: "milestones = pre @ (title, milestone) # post"
    and st: "st = foldl (createMilestones_body time_Parse client)
                    (did w Call_ListMilestones, seededMilestones existingMilestones) pre"
    and absent: "snd st title = None"
    and due: "Milestone_DueOn milestone = Some dueOn"
    and unparsable: "time_Parse dueOn = Inl err"
  shows "calls (fst (createMilestones_body time_Parse client st (title, milestone))) =
           calls (fst st) @
             [Call_CreateMilestone
                \<lparr>github_Milestone_Title = Some (Milestone_Title milestone),
                 github_Milestone_Description = Some (Milestone_Description milestone),
                 github_Milestone_DueOn = None\<rparr>] \<and>
         Call_CreateMilestone
            \<lparr>github_Milestone_Title = Some (Milestone_Title milestone),
             github_Milestone_Description = Some (Milestone_Description milestone),
             github_Milestone_DueOn = None\<rparr>
           \<in> set (calls (fst (createMilestones time_Parse client w milestones))) \<and>
         ''Warning: could not parse due date for milestone '' @ [sq] @ title @ [sq] @ '': ''
              @ err @ ''. Creating without due date.''
           \<in> set (logs (fst (createMilestones time_Parse client w milestones))) \<and>
         snd (createMilestones time_Parse client w milestones) =
           Inr (snd (foldl (createMilestones_body time_Parse client)
                       (createMilestones_body time_Parse client st (title, milestone)) post))"
proof -
  let ?body = "createMilestones_body time_Parse client"
  let ?req = "\<lparr>github_Milestone_Title = Some (Milestone_Title milestone),
                 github_Milestone_Description = Some (Milestone_Description milestone),
                 github_Milestone_DueOn = None :: 'a option\<rparr>"
  have step: "calls (fst (?body st (title, milestone))) =
      calls (fst st) @ [Call_CreateMilestone ?req]"
    using absent due unparsable by (simp add: createMilestones_body_calls)
  have logged: "''Warning: could not parse due date for milestone '' @ [sq] @ title @ [sq]
        @ '': '' @ err @ ''. Creating without due date.''
      \<in> set (logs (fst (?body st (title, milestone))))"
    using absent due unparsable
    by (simp add: createMilestones_body_def Let_def split: sum.splits)
  have run: "createMilestones time_Parse client w milestones =
      (fst (foldl ?body (?body st (title, milestone)) post),
       Inr (snd (foldl ?body (?body st (title, milestone)) post)))"
    using createMilestones_fetched [OF fetched, of time_Parse milestones]
    unfolding turn st by simp
  have "Call_CreateMilestone ?req \<in> set (calls (fst (?body st (title, milestone))))"
    by (simp add: step)
  then have called: "Call_CreateMilestone ?req
      \<in> set (calls (fst (createMilestones time_Parse client w milestones)))"
    using createMilestones_loop_calls_mono [of "?body st (title, milestone)" time_Parse client post]
    by (auto simp: run)
  have warned: "''Warning: could not parse due date for milestone '' @ [sq] @ title @ [sq]
        @ '': '' @ err @ ''. Creating without due date.''
      \<in> set (logs (fst (createMilestones time_Parse client w milestones)))"
    using logged createMilestones_loop_logs [of "?body st (title, milestone)" time_Parse client post]
    unfolding run by (simp only: fst_conv subsetD)
  from step called warned run show ?thesis by simp
qed

theorem unparsable_due_date_is_dropped_witness:
  "Issues_ListMilestones example_client (calls example_world) = Inr [(''v1'', 1)] \<and>
   snd (foldl (createMilestones_body example_time_Parse example_client)
          (did example_world Call_ListMilestones, seededMilestones [(''v1'', 1)])
          [(''v1'', milestone_v1)]) ''v2'' = None \<and>
   Milestone_DueOn milestone_v2 = Some ''next spring'' \<and>
   example_time_Parse ''next spring'' = Inl ''cannot parse as RFC3339'' \<and>
   calls (fst (createMilestones example_time_Parse example_client example_world
                 ([(''v1'', milestone_v1)] @ (''v2'', milestone_v2) # []))) =
     [Call_ListMilestones,
      Call_CreateMilestone
        \<lparr>github_Milestone_Title = Some ''v2'',
         github_Milestone_Description = Some ''Second release'',
         github_Milestone_DueOn = None\<rparr>] \<and>
   ''Warning: could not parse due date for milestone '' @ [sq] @ ''v2'' @ [sq]
       @ '': cannot parse as RFC3339. Creating without due date.''
     \<in> set (logs (fst (createMilestones example_time_Parse example_client example_world
                 ([(''v1'', milestone_v1)] @ (''v2'', milestone_v2) # []))))"
  using unparsable_due_date_is_dropped
    [of example_client example_world "[(''v1'', 1)]"
        "[(''v1'', milestone_v1)] @ (''v2'', milestone_v2) # []"
        "[(''v1'', milestone_v1)]" "''v2''" milestone_v2 "[]"
        "foldl (createMilestones_body example_time_Parse example_client)
          (did example_world Call_ListMilestones, seededMilestones [(''v1'', 1)])
          [(''v1'', milestone_v1)]"
        example_time_Parse "''next spring''" "''cannot parse as RFC3339''"]
  by (simp add: sample_defs createMilestones_def createMilestones_body_def did_def logf_def
        Let_def)

lemma seededMilestones_lookup:
  "foldl (\<lambda>m em. m(fst em \<mapsto> snd em)) m0 existingMilestones title =
     (case map_of (rev existingMilestones) title of
        Some number \<Rightarrow> Some number
      | None \<Rightarrow> m0 title)"
proof (induction existingMilestones arbitrary: m0)
  case Nil
  show ?case by simp
next
  case (Cons em ems)
  show ?case
    unfolding foldl_Cons Cons.IH
    by (cases em) (auto simp: map_add_def split: option.splits)
qed

lemma seededMilestones_dom:
  "(seededMilestones existingMilestones title = None) = (title \<notin> fst ` set existingMilestones)"
proof -
  have "(map_of (rev existingMilestones) title = None) = (title \<notin> fst ` set existingMilestones)"
    by (simp add: map_of_eq_None_iff)
  then show ?thesis
    by (cases "map_of (rev existingMilestones) title") (simp_all add: seededMilestones_lookup)
qed

lemma createMilestones_body_grows:
  "snd (createMilestones_body time_Parse client st entry) title = None \<Longrightarrow> snd st title = None"
  by (auto simp: createMilestones_body_map split: option.splits sum.splits if_splits)

lemma createMilestones_loop_new_calls:
  assumes "\<forall>entry \<in> set milestones. Milestone_Title (snd entry) = fst entry"
  shows "\<exists>new. calls (fst (foldl (createMilestones_body time_Parse client) st milestones)) =
                  calls (fst st) @ new \<and>
               (\<forall>req title. Call_CreateMilestone req \<in> set new
                    \<and> github_Milestone_Title req = Some title \<longrightarrow> snd st title = None)"
  using assms
proof (induction milestones arbitrary: st)
  case Nil
  show ?case by simp
next
  case (Cons entry milestones)
  let ?body = "createMilestones_body time_Parse client"
  from Cons.prems have keyed: "Milestone_Title (snd entry) = fst entry"
    and rest: "\<forall>entry \<in> set milestones. Milestone_Title (snd entry) = fst entry"
    by simp_all
  from Cons.IH [OF rest, of "?body st entry"] obtain new
    where new: "calls (fst (foldl ?body (?body st entry) milestones)) =
                  calls (fst (?body st entry)) @ new"
      and absent: "\<And>req title. Call_CreateMilestone req \<in> set new \<Longrightarrow>
                     github_Milestone_Title req = Some title \<Longrightarrow>
                     snd (?body st entry) title = None"
    by blast
  let ?step = "case snd st (fst entry) of
                 Some existing \<Rightarrow> []
               | None \<Rightarrow> [Call_CreateMilestone (milestoneRequest time_Parse (snd entry))]"
  have "calls (fst (foldl ?body st (entry # milestones))) = calls (fst st) @ (?step @ new)"
    by (simp add: new createMilestones_body_calls)
  moreover have "snd st title = None"
    if "Call_CreateMilestone req \<in> set (?step @ new)" "github_Milestone_Title req = Some title"
    for req title
  proof (cases "Call_CreateMilestone req \<in> set new")
    case True
    from absent [OF True that(2)] show ?thesis by (rule createMilestones_body_grows)
  next
    case False
    with that keyed show ?thesis by (auto split: option.splits)
  qed
  ultimately show ?case by blast
qed

lemma createMilestones_loop_other:
  assumes "\<forall>entry \<in> set milestones. Milestone_Title (snd entry) = fst entry"
    and "\<forall>h req createdMilestone. Issues_CreateMilestone client h req = Inr createdMilestone
           \<longrightarrow> github_Milestone_Title req = Some (fst createdMilestone)"
    and "title \<notin> fst ` set milestones"
  shows "snd (foldl (createMilestones_body time_Parse client) st milestones) title = snd st title"
  using assms(1,3)
proof (induction milestones arbitrary: st)
  case Nil
  show ?case by simp
next
  case (Cons entry milestones)
  let ?body = "createMilestones_body time_Parse client"
  from Cons.prems have keyed: "Milestone_Title (snd entry) = fst entry"
    and other: "fst entry \<noteq> title" by auto
  have "snd (?body st entry) title = snd st title"
  proof (cases "Issues_CreateMilestone client (calls (fst st))
                  (milestoneRequest time_Parse (snd entry))")
    case (Inl err)
    then show ?thesis by (simp add: createMilestones_body_map split: option.splits)
  next
    case (Inr createdMilestone)
    with assms(2) have "Some (Milestone_Title (snd entry)) = Some (fst createdMilestone)"
      by fastforce
    with keyed other have "fst createdMilestone \<noteq> title" by simp
    with Inr show ?thesis by (simp add: createMilestones_body_map split: option.splits)
  qed
  moreover have "snd (foldl ?body (?body st entry) milestones) title = snd (?body st entry) title"
    using Cons.prems by (intro Cons.IH) auto
  ultimately show ?case by simp
qed

lemma createMilestones_loop_keeps:
  assumes "\<forall>entry \<in> set milestones. Milestone_Title (snd entry) = fst entry"
    and "\<forall>h req createdMilestone. Issues_CreateMilestone client h req = Inr createdMilestone
           \<longrightarrow> github_Milestone_Title req = Some (fst createdMilestone)"
    and "snd st title = Some number"
  shows "snd (foldl (createMilestones_body time_Parse client) st milestones) title = Some number"
  using assms(1,3)
proof (induction milestones arbitrary: st)
  case Nil
  then show ?case by simp
next
  case (Cons entry milestones)
  let ?body = "createMilestones_body time_Parse client"
  from Cons.prems have keyed: "Milestone_Title (snd entry) = fst entry" by simp
  have "snd (?body st entry) title = Some number"
  proof (cases "fst entry = title")
    case True
    with Cons.prems(2) show ?thesis by (simp add: createMilestones_body_map)
  next
    case False
    from createMilestones_loop_other [of "[entry]" client title time_Parse st] assms(2) keyed False
    have "snd (?body st entry) title = snd st title" by simp
    with Cons.prems(2) show ?thesis by simp
  qed
  then have "snd (foldl ?body (?body st entry) milestones) title = Some number"
    using Cons.prems by (intro Cons.IH) auto
  then show ?case by simp
qed


lemma example_client_reports_title: "reportsRequestedTitle example_client"
  by (auto simp: reportsRequestedTitle_def example_client_def split: option.splits if_splits)

text \<open>
  C4, amended. The existing milestones are those in the answer to the one list call that
  the phase makes; the program asks for no further page, so a milestone of the target that
  the answer does not list is not among them. Suppose this call succeeded, and the
  collected milestones are keyed by their titles, each title once (as the collector returns
  them). Then no creation request of the phase names a title of a listed milestone. If
  moreover the collaborator reports every milestone it creates under the title that was
  requested, then the returned map holds for every listed title the identifier listed for
  it (the one listed last, should the list name a title twice), and for every collected
  milestone with a title not among the listed ones the one call of its turn is its creation
  request, and the returned map holds the new identifier under its title if that request
  succeeded and has no entry for its title if it failed.
\<close>

theorem milestone_provisioning_creates_no_duplicate:
  assumes fetched: "Issues_ListMilestones client (calls w) = Inr existingMilestones"
    and keyed: "list_all (\<lambda>entry. Milestone_Title (snd entry) = fst entry) milestones"
    and once: "distinct (map fst milestones)"
    and result: "snd (createMilestones time_Parse client w milestones) = Inr milestoneTitleToNumber"
  shows "(\<forall>req title.
            Call_CreateMilestone req
              \<in> set (drop (length (calls w))
                       (calls (fst (createMilestones time_Parse client w milestones))))
            \<and> github_Milestone_Title req = Some title
            \<longrightarrow> title \<notin> fst ` set existingMilestones) \<and>
         (reportsRequestedTitle client \<longrightarrow>
            (\<forall>title \<in> fst ` set existingMilestones.
               milestoneTitleToNumber title = map_of (rev existingMilestones) title) \<and>
            (\<forall>pre title milestone post.
               milestones = pre @ (title, milestone) # post
               \<and> title \<notin> fst ` set existingMilestones \<longrightarrow>
               (let st = foldl (createMilestones_body time_Parse client)
                           (did w Call_ListMilestones, seededMilestones existingMilestones) pre
                in calls (fst (createMilestones_body time_Parse client st (title, milestone))) =
                     calls (fst st) @ [Call_CreateMilestone (milestoneRequest time_Parse milestone)] \<and>
                   milestoneTitleToNumber title =
                     (case Issues_CreateMilestone client (calls (fst st))
                             (milestoneRequest time_Parse milestone) of
                        Inl err \<Rightarrow> None
                      | Inr createdMilestone \<Rightarrow> Some (snd createdMilestone)))))"
proof -
  let ?body = "createMilestones_body time_Parse client"
  let ?init = "(did w Call_ListMilestones, seededMilestones existingMilestones)"
  have keyed': "\<forall>entry \<in> set milestones. Milestone_Title (snd entry) = fst entry"
    using keyed by (simp add: list_all_iff)
  have run: "createMilestones time_Parse client w milestones =
      (fst (foldl ?body ?init milestones), Inr (snd (foldl ?body ?init milestones)))"
    by (rule createMilestones_fetched [OF fetched])
  have m: "milestoneTitleToNumber = snd (foldl ?body ?init milestones)"
    using result run by simp
  have no_dup: "title \<notin> fst ` set existingMilestones"
    if "Call_CreateMilestone req
          \<in> set (drop (length (calls w))
                   (calls (fst (createMilestones time_Parse client w milestones))))"
       "github_Milestone_Title req = Some title" for req title
  proof -
    from createMilestones_loop_new_calls [OF keyed', of time_Parse client ?init] obtain new
      where new: "calls (fst (foldl ?body ?init milestones)) = calls (fst ?init) @ new"
        and absent: "\<And>req title. Call_CreateMilestone req \<in> set new \<Longrightarrow>
                       github_Milestone_Title req = Some title \<Longrightarrow> snd ?init title = None"
      by blast
    from that(1) have "Call_CreateMilestone req \<in> set (Call_ListMilestones # new)"
      by (simp add: run new)
    then have "Call_CreateMilestone req \<in> set new" by simp
    from absent [OF this that(2)] show ?thesis
      by (simp add: seededMilestones_dom)
  qed
  have under_echo: "(\<forall>title \<in> fst ` set existingMilestones.
               milestoneTitleToNumber title = map_of (rev existingMilestones) title) \<and>
            (\<forall>pre title milestone post.
               milestones = pre @ (title, milestone) # post
               \<and> title \<notin> fst ` set existingMilestones \<longrightarrow>
               (let st = foldl ?body ?init pre
                in calls (fst (?body st (title, milestone))) =
                     calls (fst st) @ [Call_CreateMilestone (milestoneRequest time_Parse milestone)] \<and>
                   milestoneTitleToNumber title =
                     (case Issues_CreateMilestone client (calls (fst st))
                             (milestoneRequest time_Parse milestone) of
                        Inl err \<Rightarrow> None
                      | Inr createdMilestone \<Rightarrow> Some (snd createdMilestone))))"
    if "reportsRequestedTitle client"
  proof -
    from that have echo: "\<forall>h req createdMilestone.
        Issues_CreateMilestone client h req = Inr createdMilestone
          \<longrightarrow> github_Milestone_Title req = Some (fst createdMilestone)"
      by (simp add: reportsRequestedTitle_def)
    have seeded: "milestoneTitleToNumber title = map_of (rev existingMilestones) title"
      if "title \<in> fst ` set existingMilestones" for title
    proof -
      from that obtain number where n: "map_of (rev existingMilestones) title = Some number"
        by (cases "map_of (rev existingMilestones) title") (auto simp: map_of_eq_None_iff)
      then have "snd ?init title = Some number"
        by (simp add: seededMilestones_lookup)
      from createMilestones_loop_keeps [OF keyed' echo this] n show ?thesis
        by (simp add: m)
    qed
    have created: "calls (fst (?body (foldl ?body ?init pre) (title, milestone))) =
          calls (fst (foldl ?body ?init pre))
            @ [Call_CreateMilestone (milestoneRequest time_Parse milestone)] \<and>
        milestoneTitleToNumber title =
          (case Issues_CreateMilestone client (calls (fst (foldl ?body ?init pre)))
                  (milestoneRequest time_Parse milestone) of
             Inl err \<Rightarrow> None
           | Inr createdMilestone \<Rightarrow> Some (snd createdMilestone))"
      if split: "milestones = pre @ (title, milestone) # post"
        and fresh: "title \<notin> fst ` set existingMilestones"
      for pre title milestone post
    proof -
      let ?st = "foldl ?body ?init pre"
      from once split have np: "title \<notin> fst ` set pre" and nq: "title \<notin> fst ` set post"
        by auto
      from keyed' split have kp: "\<forall>entry \<in> set pre. Milestone_Title (snd entry) = fst entry"
        and kq: "\<forall>entry \<in> set post. Milestone_Title (snd entry) = fst entry"
        and kt: "Milestone_Title milestone = title"
        by auto
      have "snd ?st title = snd ?init title"
        by (rule createMilestones_loop_other [OF kp echo np])
      with fresh have before: "snd ?st title = None"
        by (simp add: seededMilestones_dom)
      have step_calls: "calls (fst (?body ?st (title, milestone))) =
          calls (fst ?st) @ [Call_CreateMilestone (milestoneRequest time_Parse milestone)]"
        using before by (simp add: createMilestones_body_calls)
      have step_map: "snd (?body ?st (title, milestone)) title =
          (case Issues_CreateMilestone client (calls (fst ?st))
                  (milestoneRequest time_Parse milestone) of
             Inl err \<Rightarrow> None
           | Inr createdMilestone \<Rightarrow> Some (snd createdMilestone))"
      proof (cases "Issues_CreateMilestone client (calls (fst ?st))
                      (milestoneRequest time_Parse milestone)")
        case (Inl err)
        with before show ?thesis by (simp add: createMilestones_body_map)
      next
        case (Inr createdMilestone)
        with echo have "Some (Milestone_Title milestone) = Some (fst createdMilestone)"
          by fastforce
        with kt have "fst createdMilestone = title" by simp
        with Inr before show ?thesis by (simp add: createMilestones_body_map)
      qed
      have "milestoneTitleToNumber title =
          snd (foldl ?body (?body ?st (title, milestone)) post) title"
        by (simp add: m split)
      also have "\<dots> = snd (?body ?st (title, milestone)) title"
        by (rule createMilestones_loop_other [OF kq echo nq])
      finally show ?thesis using step_calls step_map by simp
    qed
    from seeded created show ?thesis by (simp add: Let_def)
  qed
  from no_dup under_echo show ?thesis by blast
qed

theorem milestone_provisioning_creates_no_duplicate_witness:
  "Issues_ListMilestones example_client (calls example_world) = Inr [(''v1'', 1)] \<and>
   list_all (\<lambda>entry. Milestone_Title (snd entry) = fst entry)
     [(''v1'', milestone_v1), (''v2'', milestone_v2), ([], milestone_untitled)] \<and>
   distinct (map fst [(''v1'', milestone_v1), (''v2'', milestone_v2), ([], milestone_untitled)]) \<and>
   reportsRequestedTitle example_client \<and>
   calls (fst (createMilestones example_time_Parse example_client example_world
           [(''v1'', milestone_v1), (''v2'', milestone_v2), ([], milestone_untitled)])) =
     [Call_ListMilestones,
      Call_CreateMilestone (milestoneRequest example_time_Parse milestone_v2),
      Call_CreateMilestone (milestoneRequest example_time_Parse milestone_untitled)] \<and>
   Issues_CreateMilestone example_client [Call_ListMilestones]
     (milestoneRequest example_time_Parse milestone_v2) = Inr (''v2'', 3) \<and>
   Issues_CreateMilestone example_client
     [Call_ListMilestones, Call_CreateMilestone (milestoneRequest example_time_Parse milestone_v2)]
     (milestoneRequest example_time_Parse milestone_untitled) = Inl ''422 Validation Failed'' \<and>
   map_sum id (\<lambda>m. (m ''v1'', m ''v2'', m []))
     (snd (createMilestones example_time_Parse example_client example_world
           [(''v1'', milestone_v1), (''v2'', milestone_v2), ([], milestone_untitled)])) =
     Inr (Some 1, Some 3, None)"
  using milestone_provisioning_creates_no_duplicate
    [of example_client example_world "[(''v1'', 1)]"
        "[(''v1'', milestone_v1), (''v2'', milestone_v2), ([], milestone_untitled)]"
        example_time_Parse
        "case snd (createMilestones example_time_Parse example_client example_world
           [(''v1'', milestone_v1), (''v2'', milestone_v2), ([], milestone_untitled)]) of
           Inr m \<Rightarrow> m"]
    example_client_reports_title
  by (simp add: sample_defs createMilestones_def
        createMilestones_body_def did_def logf_def Let_def)

text \<open>
  C4 as stated does not hold of every collaborator, because the map is keyed by the title
  of the milestone that the creation returns, not by the title requested. With a
  collaborator that strips blanks from titles, the milestone requested under the title
  \<open>v2\<close> followed by a blank is created with identifier 3, and the returned map has no
  entry for the requested title; the entry is under \<open>v2\<close>.
\<close>

theorem created_title_is_the_reported_one:
  "calls (fst (createMilestones example_time_Parse trimming_client example_world
           [(''v2 '', milestone_v2_padded)])) =
     [Call_ListMilestones, Call_CreateMilestone (milestoneRequest example_time_Parse milestone_v2_padded)] \<and>
   Issues_CreateMilestone trimming_client [Call_ListMilestones]
     (milestoneRequest example_time_Parse milestone_v2_padded) = Inr (''v2'', 3) \<and>
   map_sum id (\<lambda>m. (m ''v2 '', m ''v2''))
     (snd (createMilestones example_time_Parse trimming_client example_world
           [(''v2 '', milestone_v2_padded)])) =
     Inr (None, Some 3)"
  by (simp add: sample_defs createMilestones_def createMilestones_body_def did_def logf_def Let_def)

subsection \<open>Phase 3: the requests and the consolidated comment\<close>

lemma combinedComments_eq:
  "combinedComments comments =
     (''### Comments from original issue:'' @ [nl, nl] @ ''---'' @ [nl, nl])
       @ concat (map (\<lambda>comment.
            ''**Comment from @'' @ User_Login (Comment_Author comment) @ '':**'' @ [nl, nl]
              @ Comment_Body comment @ [nl, nl] @ ''---'' @ [nl, nl]) comments)"
proof -
  have "foldl (\<lambda>b comment.
              b @ (''**Comment from @'' @ User_Login (Comment_Author comment) @ '':**'' @ [nl, nl])
                @ Comment_Body comment
                @ ([nl, nl] @ ''---'' @ [nl, nl])) acc comments =
        acc @ concat (map (\<lambda>comment.
            ''**Comment from @'' @ User_Login (Comment_Author comment) @ '':**'' @ [nl, nl]
              @ Comment_Body comment @ [nl, nl] @ ''---'' @ [nl, nl]) comments)" for acc
    by (induction comments arbitrary: acc) simp_all
  then show ?thesis by (simp add: combinedComments_def)
qed

lemma combinedComments_nonempty: "combinedComments comments \<noteq> []"
  by (simp add: combinedComments_eq)

lemma labelNames_eq:
  "foldl (\<lambda>names label. names @ [Label_Name label]) acc labels = acc @ map Label_Name labels"
  by (induction labels arbitrary: acc) simp_all

lemma newIssueRequest_eq:
  "newIssueRequest milestoneTitleToNum issue =
     \<lparr>github_IssueRequest_Title = Some (Issue_Title issue),
      github_IssueRequest_Body = Some (Issue_Body issue),
      github_IssueRequest_Labels = Some (map Label_Name (Issue_Labels issue)),
      github_IssueRequest_Milestone =
        (case Issue_Milestone issue of
           None \<Rightarrow> None
         | Some milestone \<Rightarrow> milestoneTitleToNum (Milestone_Title milestone))\<rparr>"
  by (simp add: newIssueRequest_def labelNames_eq Let_def split: option.splits)

lemma createIssueAndComment_body_calls:
  "calls (fst (createIssueAndComment_body client mtn st issue)) =
     calls (fst st) @ Call_Create (newIssueRequest mtn issue) #
       (case Issues_Create client (calls (fst st)) (newIssueRequest mtn issue) of
          Inl err \<Rightarrow> []
        | Inr n \<Rightarrow>
            if Issue_Comments issue = [] then []
            else [Call_CreateComment n
                    \<lparr>github_IssueComment_Body = Some (combinedComments (Issue_Comments issue))\<rparr>])"
  by (simp add: createIssueAndComment_body_def Let_def combinedComments_nonempty
        split: sum.splits option.splits)

lemma createIssueAndComment_body_map:
  "snd (createIssueAndComment_body client mtn st issue) =
     (case Issues_Create client (calls (fst st)) (newIssueRequest mtn issue) of
        Inl err \<Rightarrow> snd st
      | Inr n \<Rightarrow> (snd st)(Issue_Number issue \<mapsto> n))"
  by (simp add: createIssueAndComment_body_def Let_def combinedComments_nonempty
        split: sum.splits option.splits)

lemma createRequests_append:
  "createRequests (cs @ ds) = createRequests cs @ createRequests ds"
  by (induction cs rule: createRequests.induct) simp_all

lemma createIssueAndComment_body_requests:
  "createRequests (calls (fst (createIssueAndComment_body client mtn st issue))) =
     createRequests (calls (fst st)) @ [newIssueRequest mtn issue]"
  by (simp add: createIssueAndComment_body_calls createRequests_append
        split: sum.splits)

lemma createIssueAndComment_loop_requests:
  "createRequests (calls (fst (foldl (createIssueAndComment_body client mtn) st issues))) =
     createRequests (calls (fst st)) @ map (newIssueRequest mtn) issues"
  by (induction issues arbitrary: st) (simp_all add: createIssueAndComment_body_requests)

text \<open>
  C8. The creation requests that the replicator issues are, in the order of the source
  issues, one per issue: it carries the issue's title, the issue's body as it is in the
  snapshot, the names of its labels in their order, and as milestone the identifier that
  the title-to-identifier map holds for the title of the issue's milestone. It carries no
  milestone when the issue has none or the map has no entry for the title.
\<close>

theorem creation_request_carries_issue_fields:
  "createRequests (calls (fst (createIssueAndComment client w issues milestoneTitleToNum))) =
     createRequests (calls w) @
       map (\<lambda>issue.
              \<lparr>github_IssueRequest_Title = Some (Issue_Title issue),
               github_IssueRequest_Body = Some (Issue_Body issue),
               github_IssueRequest_Labels = Some (map Label_Name (Issue_Labels issue)),
               github_IssueRequest_Milestone =
                 (case Issue_Milestone issue of
                    None \<Rightarrow> None
                  | Some milestone \<Rightarrow> milestoneTitleToNum (Milestone_Title milestone))\<rparr>)
         issues"
  by (simp add: createIssueAndComment_def createIssueAndComment_loop_requests
        newIssueRequest_eq [abs_def])

theorem creation_request_carries_issue_fields_witness:
  "createRequests (calls (fst (createIssueAndComment example_client example_world
       [issue3, issue4, issue5] [''v1'' \<mapsto> 1]))) =
     [\<lparr>github_IssueRequest_Title = Some ''Login fails'',
       github_IssueRequest_Body = Some ''Since 0.9'',
       github_IssueRequest_Labels = Some [''bug'', ''ui''],
       github_IssueRequest_Milestone = Some 1\<rparr>,
      \<lparr>github_IssueRequest_Title = Some [],
       github_IssueRequest_Body = Some ''No title'',
       github_IssueRequest_Labels = Some [''ui''],
       github_IssueRequest_Milestone = None\<rparr>,
      \<lparr>github_IssueRequest_Title = Some ''Follow-up'',
       github_IssueRequest_Body = Some ''Follows #3 and #4'',
       github_IssueRequest_Labels = Some [],
       github_IssueRequest_Milestone = None\<rparr>]"
  using creation_request_carries_issue_fields
    [of example_client example_world "[issue3, issue4, issue5]" "[''v1'' \<mapsto> 1]"]
  by (simp add: sample_defs)

lemma createIssueAndComment_snoc:
  "createIssueAndComment client w (issues @ [issue]) milestoneTitleToNum =
     createIssueAndComment_body client milestoneTitleToNum
       (createIssueAndComment client w issues milestoneTitleToNum) issue"
  by (simp add: createIssueAndComment_def)

text \<open>
  C3. The calls of the replicator are, source issue by source issue in order, the creation
  request of the issue and, when the collaborator has answered that request with a new
  number and the issue has one or more comments, exactly one comment on that number. The
  body of the comment is the header, and then for each comment of the issue in the original
  order the line naming its author, the comment's body and the separator. For an issue
  without comments, as for one whose creation was refused, the creation request is the
  only call.
\<close>

theorem replicator_posts_one_consolidated_comment:
  "calls (fst (createIssueAndComment client w issues milestoneTitleToNum)) =
     calls w @
       concat (map (\<lambda>i.
         Call_Create (newIssueRequest milestoneTitleToNum (issues ! i)) #
           (case Issues_Create client
                   (calls (fst (createIssueAndComment client w (take i issues)
                                  milestoneTitleToNum)))
                   (newIssueRequest milestoneTitleToNum (issues ! i)) of
              Inl err \<Rightarrow> []
            | Inr newlyCreatedNumber \<Rightarrow>
                if Issue_Comments (issues ! i) = [] then []
                else [Call_CreateComment newlyCreatedNumber
                        \<lparr>github_IssueComment_Body = Some (
                           ''### Comments from original issue:'' @ [nl, nl] @ ''---'' @ [nl, nl]
                             @ concat (map (\<lambda>comment.
                                 ''**Comment from @'' @ User_Login (Comment_Author comment)
                                   @ '':**'' @ [nl, nl]
                                   @ Comment_Body comment @ [nl, nl] @ ''---'' @ [nl, nl])
                                 (Issue_Comments (issues ! i))))\<rparr>]))
         [0..<length issues])"
proof (induction issues rule: rev_induct)
  case Nil
  show ?case by (simp add: createIssueAndComment_def)
next
  case (snoc issue issues)
  let ?run = "\<lambda>xs. createIssueAndComment client w xs milestoneTitleToNum"
  let ?turn = "\<lambda>xs i.
         Call_Create (newIssueRequest milestoneTitleToNum (xs ! i)) #
           (case Issues_Create client (calls (fst (?run (take i xs))))
                   (newIssueRequest milestoneTitleToNum (xs ! i)) of
              Inl err \<Rightarrow> []
            | Inr newlyCreatedNumber \<Rightarrow>
                if Issue_Comments (xs ! i) = [] then []
                else [Call_CreateComment newlyCreatedNumber
                        \<lparr>github_IssueComment_Body = Some (
                           ''### Comments from original issue:'' @ [nl, nl] @ ''---'' @ [nl, nl]
                             @ concat (map (\<lambda>comment.
                                 ''**Comment from @'' @ User_Login (Comment_Author comment)
                                   @ '':**'' @ [nl, nl]
                                   @ Comment_Body comment @ [nl, nl] @ ''---'' @ [nl, nl])
                                 (Issue_Comments (xs ! i))))\<rparr>])"
  have earlier: "map (?turn (issues @ [issue])) [0..<length issues] =
                 map (?turn issues) [0..<length issues]"
    by (rule map_cong) (simp_all add: nth_append cong: sum.case_cong if_cong)
  have last: "?turn (issues @ [issue]) (length issues) =
      Call_Create (newIssueRequest milestoneTitleToNum issue) #
        (case Issues_Create client (calls (fst (?run issues)))
                (newIssueRequest milestoneTitleToNum issue) of
           Inl err \<Rightarrow> []
         | Inr n \<Rightarrow>
             if Issue_Comments issue = [] then []
             else [Call_CreateComment n
                     \<lparr>github_IssueComment_Body = Some (combinedComments (Issue_Comments issue))\<rparr>])"
    by (simp add: combinedComments_eq cong: sum.case_cong if_cong)
  have "calls (fst (?run (issues @ [issue]))) =
        calls (fst (?run issues)) @ ?turn (issues @ [issue]) (length issues)"
    unfolding last createIssueAndComment_snoc
    by (rule createIssueAndComment_body_calls)
  also have "calls (fst (?run issues)) =
      calls w @ concat (map (?turn issues) [0..<length issues])"
    by (rule snoc.IH)
  finally show ?case
    by (simp only: length_append_singleton upt_Suc_append [OF le0] map_append concat_append
          earlier list.map concat.simps append_Nil2 append_assoc)
qed

theorem replicator_posts_one_consolidated_comment_witness:
  "calls (fst (createIssueAndComment example_client example_world [issue3, issue4, issue5]
                 [''v1'' \<mapsto> 1])) =
     [Call_Create (newIssueRequest [''v1'' \<mapsto> 1] issue3),
      Call_CreateComment 10 \<lparr>github_IssueComment_Body = Some (
        ''### Comments from original issue:'' @ [nl, nl] @ ''---'' @ [nl, nl]
        @ ''**Comment from @alice:**'' @ [nl, nl] @ ''Same here'' @ [nl, nl] @ ''---'' @ [nl, nl]
        @ ''**Comment from @bob:**'' @ [nl, nl] @ ''Fixed'' @ [nl, nl] @ ''---'' @ [nl, nl]
        @ ''**Comment from @alice:**'' @ [nl, nl] @ ''Thanks'' @ [nl, nl] @ ''---'' @ [nl, nl])\<rparr>,
      Call_Create (newIssueRequest [''v1'' \<mapsto> 1] issue4),
      Call_Create (newIssueRequest [''v1'' \<mapsto> 1] issue5)]"
  using replicator_posts_one_consolidated_comment
    [of example_client example_world "[issue3, issue4, issue5]" "[''v1'' \<mapsto> 1]"]
  by (simp add: sample_defs phase_defs)

lemma createIssueAndComment_loop_other:
  "k \<notin> Issue_Number ` set issues \<Longrightarrow>
   snd (foldl (createIssueAndComment_body client mtn) st issues) k = snd st k"
  by (induction issues arbitrary: st)
     (auto simp: createIssueAndComment_body_map split: sum.splits)

text \<open>
  C2, amended. Take a source issue whose creation the collaborator refuses when its turn
  comes. Then the only call made for it is the refused creation (no comment is posted), and
  the mapping is after its turn what it was before. If no other source issue has its
  number, then the number has no entry in the mapping that the replicator returns, and
  under that mapping the rewriter keeps every reference that it looks up under this number
  as it stands; by \<open>Atoi_digits\<close> these include every reference whose digits denote the
  number.
\<close>

theorem failed_creation_leaves_reference_dangling:
  assumes st: "st = foldl (createIssueAndComment_body client milestoneTitleToNum) (w, Map.empty) pre"
    and fails: "Issues_Create client (calls (fst st)) (newIssueRequest milestoneTitleToNum issue)
                  = Inl err"
    and final: "oldToNewIssueNumbers =
                  snd (createIssueAndComment client w (pre @ issue # post) milestoneTitleToNum)"
  shows "calls (fst (createIssueAndComment_body client milestoneTitleToNum st issue)) =
           calls (fst st) @ [Call_Create (newIssueRequest milestoneTitleToNum issue)] \<and>
         snd (createIssueAndComment_body client milestoneTitleToNum st issue) = snd st \<and>
         (Issue_Number issue \<notin> Issue_Number ` set (pre @ post) \<longrightarrow>
            oldToNewIssueNumbers (Issue_Number issue) = None \<and>
            (\<forall>t0 ds t. ds \<noteq> [] \<and> list_all isDigit ds \<and> fst (Atoi ds) = Issue_Number issue
                 \<and> (t = [] \<or> \<not> isDigit (hd t)) \<longrightarrow>
               updatedBody oldToNewIssueNumbers (t0 @ CHR ''#'' # ds @ t) =
                 updatedBody oldToNewIssueNumbers t0 @ CHR ''#'' # ds
                   @ updatedBody oldToNewIssueNumbers t))"
proof -
  let ?body = "createIssueAndComment_body client milestoneTitleToNum"
  have step_calls: "calls (fst (?body st issue)) =
      calls (fst st) @ [Call_Create (newIssueRequest milestoneTitleToNum issue)]"
    using fails by (simp add: createIssueAndComment_body_calls)
  have step_map: "snd (?body st issue) = snd st"
    using fails by (simp add: createIssueAndComment_body_map)
  have dangling: "oldToNewIssueNumbers (Issue_Number issue) = None \<and>
      (\<forall>t0 ds t. ds \<noteq> [] \<and> list_all isDigit ds \<and> fst (Atoi ds) = Issue_Number issue
           \<and> (t = [] \<or> \<not> isDigit (hd t)) \<longrightarrow>
         updatedBody oldToNewIssueNumbers (t0 @ CHR ''#'' # ds @ t) =
           updatedBody oldToNewIssueNumbers t0 @ CHR ''#'' # ds
             @ updatedBody oldToNewIssueNumbers t)"
    if other: "Issue_Number issue \<notin> Issue_Number ` set (pre @ post)"
  proof -
    have before: "snd st (Issue_Number issue) = None"
      using other st createIssueAndComment_loop_other [of "Issue_Number issue" pre client
        milestoneTitleToNum "(w, Map.empty)"]
      by (simp add: image_Un)
    have "oldToNewIssueNumbers (Issue_Number issue) =
            snd (foldl ?body (?body st issue) post) (Issue_Number issue)"
      using final st by (simp add: createIssueAndComment_def)
    also have "\<dots> = snd (?body st issue) (Issue_Number issue)"
      using other by (intro createIssueAndComment_loop_other) (simp add: image_Un)
    finally have absent: "oldToNewIssueNumbers (Issue_Number issue) = None"
      using step_map before by simp
    have keep: "updatedBody oldToNewIssueNumbers (t0 @ CHR ''#'' # ds @ t) =
                updatedBody oldToNewIssueNumbers t0 @ CHR ''#'' # ds
                  @ updatedBody oldToNewIssueNumbers t"
      if "ds \<noteq> []" "list_all isDigit ds" "fst (Atoi ds) = Issue_Number issue"
         "t = [] \<or> \<not> isDigit (hd t)" for t0 ds t
      using that absent
      by (simp add: updatedBody_at_reference replaceIssueLink_match)
    from absent keep show ?thesis by blast
  qed
  from step_calls step_map dangling show ?thesis by blast
qed

theorem failed_creation_leaves_reference_dangling_witness:
  "Issues_Create example_client
     (calls (fst (foldl (createIssueAndComment_body example_client [''v1'' \<mapsto> 1])
                    (example_world, Map.empty) [issue3])))
     (newIssueRequest [''v1'' \<mapsto> 1] issue4) = Inl ''422 Validation Failed'' \<and>
   calls (fst (createIssueAndComment_body example_client [''v1'' \<mapsto> 1]
                 (foldl (createIssueAndComment_body example_client [''v1'' \<mapsto> 1])
                    (example_world, Map.empty) [issue3]) issue4)) =
     calls (fst (foldl (createIssueAndComment_body example_client [''v1'' \<mapsto> 1])
                    (example_world, Map.empty) [issue3]))
       @ [Call_Create (newIssueRequest [''v1'' \<mapsto> 1] issue4)] \<and>
   Issue_Number issue4 \<notin> Issue_Number ` set ([issue3] @ [issue5]) \<and>
   snd (createIssueAndComment example_client example_world ([issue3] @ issue4 # [issue5])
          [''v1'' \<mapsto> 1]) (Issue_Number issue4) = None \<and>
   fst (Atoi ''4'') = Issue_Number issue4 \<and>
   updatedBody (snd (createIssueAndComment example_client example_world
                       ([issue3] @ issue4 # [issue5]) [''v1'' \<mapsto> 1]))
      (''Follows #3 and '' @ CHR ''#'' # ''4'' @ []) = ''Follows #10 and #4''"
  using failed_creation_leaves_reference_dangling
    [of "foldl (createIssueAndComment_body example_client [''v1'' \<mapsto> 1])
           (example_world, Map.empty) [issue3]"
        example_client "[''v1'' \<mapsto> 1]" example_world "[issue3]" issue4
        "''422 Validation Failed''"
        "snd (createIssueAndComment example_client example_world
                ([issue3] @ issue4 # [issue5]) [''v1'' \<mapsto> 1])"
        "[issue5]"]
  by (simp add: sample_defs text_defs phase_defs)

text \<open>
  C2 as stated, for every source issue, does not hold: the mapping is keyed by the number
  alone. When two source issues carry the number 9, the first is refused and the second is
  created as 20, the returned mapping has the entry from 9 to 20, and a reference to 9 is
  rewritten.
\<close>

theorem shared_number_gets_an_entry_after_a_refused_creation:
  "Issues_Create example_client (calls example_world) (newIssueRequest Map.empty issue9_refused)
     = Inl ''422 Validation Failed'' \<and>
   Issue_Number issue9_refused = 9 \<and>
   snd (createIssueAndComment example_client example_world [issue9_refused, issue9_created]
          Map.empty) 9 = Some 20 \<and>
   updatedBody (snd (createIssueAndComment example_client example_world
                       [issue9_refused, issue9_created] Map.empty)) ''see #9'' = ''see #20''"
  by (simp add: sample_defs text_defs phase_defs)

subsection \<open>Phase 4: the edits\<close>

lemma updateIssueLinks_body_calls:
  "calls (updateIssueLinks_body client m w issue) =
     calls w @
       (case m (Issue_Number issue) of
          None \<Rightarrow> []
        | Some n \<Rightarrow>
            if updatedBody m (Issue_Body issue) \<noteq> Issue_Body issue
            then [Call_Edit n \<lparr>github_IssueRequest_Title = None,
                    github_IssueRequest_Body = Some (updatedBody m (Issue_Body issue)),
                    github_IssueRequest_Labels = None,
                    github_IssueRequest_Milestone = None\<rparr>]
            else [])"
  by (simp add: updateIssueLinks_body_def Let_def split: option.splits)


lemma updateIssueLinks_loop_calls:
  "calls (foldl (updateIssueLinks_body client m) w issues) =
     calls w @ concat (map (\<lambda>issue.
       (case m (Issue_Number issue) of
          None \<Rightarrow> []
        | Some n \<Rightarrow>
            if updatedBody m (Issue_Body issue) \<noteq> Issue_Body issue
            then [Call_Edit n \<lparr>github_IssueRequest_Title = None,
                    github_IssueRequest_Body = Some (updatedBody m (Issue_Body issue)),
                    github_IssueRequest_Labels = None,
                    github_IssueRequest_Milestone = None\<rparr>]
            else [])) issues)"
  by (induction issues arbitrary: w) (simp_all add: updateIssueLinks_body_calls)

text \<open>
  C6. The calls of the rewrite phase are, issue by issue in order: nothing for an issue
  without entry in the mapping; for an issue with an entry, one edit of the new issue that
  sets the body to the rewritten text if that text differs from the original body, and
  nothing if it does not. In particular no call is made for a body without issue link.
\<close>

theorem edit_submitted_iff_body_changed:
  "calls (updateIssueLinks client w issues oldToNewIssueNumbers) =
     calls w @ concat (map (\<lambda>issue.
       (case oldToNewIssueNumbers (Issue_Number issue) of
          None \<Rightarrow> []
        | Some newlyCreatedNumber \<Rightarrow>
            if updatedBody oldToNewIssueNumbers (Issue_Body issue) \<noteq> Issue_Body issue
            then [Call_Edit newlyCreatedNumber
                   \<lparr>github_IssueRequest_Title = None,
                    github_IssueRequest_Body =
                      Some (updatedBody oldToNewIssueNumbers (Issue_Body issue)),
                    github_IssueRequest_Labels = None,
                    github_IssueRequest_Milestone = None\<rparr>]
            else [])) issues) \<and>
   (\<forall>issue. \<not> hasIssueLink (Issue_Body issue) \<longrightarrow>
      calls (updateIssueLinks_body client oldToNewIssueNumbers w issue) = calls w)"
  by (simp add: updateIssueLinks_def updateIssueLinks_loop_calls updateIssueLinks_body_calls
        updatedBody_def Replace_plain split: option.splits)


theorem edit_submitted_iff_body_changed_witness:
  "calls (updateIssueLinks example_client example_world [issue3, issue4, issue5]
            [3 \<mapsto> 10, 5 \<mapsto> 30]) =
     [Call_Edit 30 \<lparr>github_IssueRequest_Title = None,
        github_IssueRequest_Body = Some ''Follows #10 and #4'',
        github_IssueRequest_Labels = None,
        github_IssueRequest_Milestone = None\<rparr>] \<and>
   \<not> hasIssueLink (Issue_Body issue3) \<and>
   calls (updateIssueLinks_body example_client [3 \<mapsto> 10, 5 \<mapsto> 30] example_world issue3) =
     calls example_world"
  using edit_submitted_iff_body_changed
    [of example_client example_world "[issue3, issue4, issue5]" "[3 \<mapsto> 10, 5 \<mapsto> 30]"]
  by (simp add: sample_defs text_defs)

end
